theory Spec2Isabelle
  imports Complex_Main "HOL-Library.Word"
begin

unbundle bit_operations_syntax

section \<open>Machine integers of the interpolator\<close>

text \<open>
  \<open>slope.h\<close> computes on \<open>int32_t\<close> and \<open>uint32_t\<close>.  Both are 32-bit words here; a
  signed reading is \<open>sint\<close>, a signed comparison is \<open><s\<close> or \<open>\<le>s\<close>.  Unsigned C++
  arithmetic wraps, and so do \<open>+\<close>, \<open>-\<close>, \<open>*\<close> on words.  Signed C++ arithmetic that
  leaves the 32-bit range is undefined behaviour: each signed operation of the source is
  a checked operation here, and the undefined run is the value \<open>Inl SignedOverflow\<close>.
  Converting between \<open>int32_t\<close> and \<open>uint32_t\<close> keeps the bit pattern.  The other
  faults are an unsigned division by zero, an index outside a \<open>std::array\<close>, and the use
  of a local variable that was never written.
\<close>

type_synonym i32 = "32 word"
type_synonym u32 = "32 word"
type_synonym u16 = "16 word"
type_synonym u8 = "8 word"

datatype fault = SignedOverflow | DivisionByZero | OutOfBounds | IndeterminateValue

definition bind_fault :: "fault + 'a \<Rightarrow> ('a \<Rightarrow> fault + 'b) \<Rightarrow> fault + 'b" where
  "bind_fault m f = (case m of Inl e \<Rightarrow> Inl e | Inr v \<Rightarrow> f v)"

definition in_i32 :: "int \<Rightarrow> bool" where
  "in_i32 v \<longleftrightarrow> - (2 ^ 31) \<le> v \<and> v < 2 ^ 31"

definition i32_add :: "i32 \<Rightarrow> i32 \<Rightarrow> fault + i32" where
  "i32_add a b = (if in_i32 (sint a + sint b) then Inr (a + b) else Inl SignedOverflow)"

definition i32_sub :: "i32 \<Rightarrow> i32 \<Rightarrow> fault + i32" where
  "i32_sub a b = (if in_i32 (sint a - sint b) then Inr (a - b) else Inl SignedOverflow)"

definition i32_mul :: "i32 \<Rightarrow> i32 \<Rightarrow> fault + i32" where
  "i32_mul a b = (if in_i32 (sint a * sint b) then Inr (a * b) else Inl SignedOverflow)"

text \<open>
  \<open>a << n\<close> on a signed \<open>a\<close>: defined by every C++ standard when \<open>a\<close> is not negative and
  \<open>a * 2 ^ n\<close> fits; anything else is reported as a fault.
\<close>

definition i32_shl :: "i32 \<Rightarrow> nat \<Rightarrow> fault + i32" where
  "i32_shl a n =
     (if 0 \<le> sint a \<and> in_i32 (sint a * 2 ^ n) then Inr (push_bit n a) else Inl SignedOverflow)"

text \<open>\<open>a >> n\<close> on a signed \<open>a\<close> is the arithmetic shift.\<close>

definition i32_shr :: "i32 \<Rightarrow> nat \<Rightarrow> i32" where
  "i32_shr a n = signed_drop_bit n a"

definition u32_div :: "u32 \<Rightarrow> u32 \<Rightarrow> fault + u32" where
  "u32_div a b = (if b = 0 then Inl DivisionByZero else Inr (a div b))"

section \<open>The slope interpolator (\<open>slope.h\<close>)\<close>

definition kFracBits :: nat where
  "kFracBits = 18"

definition kOne :: u32 where
  "kOne = push_bit kFracBits 1"

definition kBias :: u32 where
  "kBias = drop_bit 1 kOne"

definition kMask :: u32 where
  "kMask = push_bit (kFracBits div 2) (NOT 0)"

record Slope =
  m_x0 :: i32
  m_y0 :: i32
  m_dx :: i32
  m_negative :: bool
  m_xMajor :: bool

text \<open>
  \<open>Slope::Setup\<close>.  The statements of the source in their order: the swap to top-to-bottom,
  the reference coordinates, the sign and its one-unit decrement, the deltas, the bias,
  and the increment, whose division \<open>kOne / dy\<close> is unsigned and comes before the
  (unsigned, wrapping) multiplication.
\<close>

definition Setup :: "i32 \<Rightarrow> i32 \<Rightarrow> i32 \<Rightarrow> i32 \<Rightarrow> fault + Slope" where
  "Setup x0 y0 x1 y1 =
     (let (x0, y0, x1, y1) = (if y1 <s y0 then (x1, y1, x0, y0) else (x0, y0, x1, y1)) in
      bind_fault (i32_shl x0 kFracBits) (\<lambda>mx0.
      let negative = (x1 <s x0) in
      bind_fault (if negative then i32_sub mx0 1 else Inr mx0) (\<lambda>mx0.
      let (x0, x1) = (if negative then (x1, x0) else (x0, x1)) in
      bind_fault (i32_sub x1 x0) (\<lambda>dx.
      bind_fault (i32_sub y1 y0) (\<lambda>dy.
      let xMajor = (dy <s dx);
          mx0 = (if xMajor \<or> dx = dy
                 then (if negative then mx0 - kBias else mx0 + kBias)
                 else mx0) in
      bind_fault (if dy \<noteq> 0
                  then bind_fault (u32_div kOne dy) (\<lambda>q. Inr (dx * q))
                  else Inr (dx * kOne)) (\<lambda>mdx.
      Inr \<lparr>m_x0 = mx0, m_y0 = y0, m_dx = mdx,
           m_negative = negative, m_xMajor = xMajor\<rparr>))))))"

definition FracXStart :: "Slope \<Rightarrow> i32 \<Rightarrow> fault + i32" where
  "FracXStart s y =
     bind_fault (i32_sub y (m_y0 s)) (\<lambda>d.
     bind_fault (i32_mul d (m_dx s)) (\<lambda>displacement.
     if m_negative s then i32_sub (m_x0 s) displacement
     else i32_add (m_x0 s) displacement))"

definition FracXEnd :: "Slope \<Rightarrow> i32 \<Rightarrow> fault + i32" where
  "FracXEnd s y =
     bind_fault (FracXStart s y) (\<lambda>result.
     Inr (if m_xMajor s
          then (if m_negative s
                then result + (NOT kMask - (result AND NOT kMask)) - m_dx s + kOne
                else (result AND kMask) + m_dx s - kOne)
          else result))"

definition XStart :: "Slope \<Rightarrow> i32 \<Rightarrow> fault + i32" where
  "XStart s y = bind_fault (FracXStart s y) (\<lambda>r. Inr (i32_shr r kFracBits))"

definition XEnd :: "Slope \<Rightarrow> i32 \<Rightarrow> fault + i32" where
  "XEnd s y = bind_fault (FracXEnd s y) (\<lambda>r. Inr (i32_shr r kFracBits))"

definition DX :: "Slope \<Rightarrow> i32" where
  "DX s = m_dx s"

definition IsXMajor :: "Slope \<Rightarrow> bool" where
  "IsXMajor s = m_xMajor s"

definition IsNegative :: "Slope \<Rightarrow> bool" where
  "IsNegative s = m_negative s"

section \<open>Integer reading of a configured slope\<close>

text \<open>
  The values the fields of a slope stand for, as unbounded integers: the increment
  \<open>dx_int * (ONE / dy_int)\<close> with its division first, the biased fixed-point origin, and
  the fixed-point start of the span \<open>k\<close> scanlines below the top endpoint.
\<close>

definition reciprocal_dx :: "int \<Rightarrow> int \<Rightarrow> int" where
  "reciprocal_dx dx_int dy_int =
     (if dy_int \<noteq> 0 then dx_int * (262144 div dy_int) else dx_int * 262144)"

definition origin_fp :: "int \<Rightarrow> int \<Rightarrow> int \<Rightarrow> int" where
  "origin_fp x0 x1 dy =
     (if x1 < x0 then x0 * 262144 - 1 - (if dy \<le> x0 - x1 then 131072 else 0)
      else x0 * 262144 + (if dy \<le> x1 - x0 then 131072 else 0))"

definition slope_for :: "Slope \<Rightarrow> int \<Rightarrow> int \<Rightarrow> int \<Rightarrow> int \<Rightarrow> bool" where
  "slope_for s xt yt xb yb \<longleftrightarrow>
     sint (m_y0 s) = yt
     \<and> m_negative s = (xb < xt)
     \<and> m_xMajor s = (yb - yt < \<bar>xb - xt\<bar>)
     \<and> sint (m_dx s) = reciprocal_dx \<bar>xb - xt\<bar> (yb - yt)
     \<and> sint (m_x0 s) = origin_fp xt xb (yb - yt)"

definition frac_start_int :: "int \<Rightarrow> int \<Rightarrow> int \<Rightarrow> int \<Rightarrow> int" where
  "frac_start_int xt xb dy k =
     (if xb < xt then origin_fp xt xb dy - k * reciprocal_dx (xt - xb) dy
      else origin_fp xt xb dy + k * reciprocal_dx (xb - xt) dy)"

section \<open>The documented domain and the normalized deltas\<close>

text \<open>
  The harness sweeps endpoints over \<open>x \<in> [0, 256]\<close> and \<open>y \<in> [0, 192]\<close>.  After the swap
  to top-to-bottom and the swap of a negative slope, the deltas of Setup are the
  magnitudes of the coordinate differences.
\<close>

definition on_screen :: "i32 \<Rightarrow> i32 \<Rightarrow> bool" where
  "on_screen x y \<longleftrightarrow> 0 \<le>s x \<and> x \<le>s 256 \<and> 0 \<le>s y \<and> y \<le>s 192"

definition dx_int :: "i32 \<Rightarrow> i32 \<Rightarrow> int" where
  "dx_int x0 x1 = \<bar>sint x1 - sint x0\<bar>"

definition dy_int :: "i32 \<Rightarrow> i32 \<Rightarrow> int" where
  "dy_int y0 y1 = \<bar>sint y1 - sint y0\<bar>"

text \<open>
  The normalized scanline range of an edge: from the smaller to the larger of the two
  \<open>y\<close> coordinates, as the swap of Setup orders them.
\<close>

definition y_top :: "i32 \<Rightarrow> i32 \<Rightarrow> i32" where
  "y_top y0 y1 = (if y1 <s y0 then y1 else y0)"

definition y_bottom :: "i32 \<Rightarrow> i32 \<Rightarrow> i32" where
  "y_bottom y0 y1 = (if y1 <s y0 then y0 else y1)"

text \<open>The constants as the specification writes them: \<open>1 << 18\<close> and \<open>~((1 << 9) - 1)\<close>.\<close>

definition ONE :: u32 where
  "ONE = push_bit 18 1"

definition MASK :: u32 where
  "MASK = NOT (push_bit 9 1 - 1)"

section \<open>The capture data (\<open>main.cpp\<close>)\<close>

text \<open>
  \<open>Span\<close>, \<open>Line\<close> and \<open>Data\<close>.  The table \<open>lines\<close> is
  \<open>std::array<std::array<Line, 257>, 193>\<close> with 192 spans per line; it is a function of
  the three indices here, and every access goes through a check of the three bounds,
  since indexing a \<open>std::array\<close> out of range is undefined.
\<close>

record Span =
  span_exists :: bool
  span_start :: u8
  span_end :: u8

record Data =
  data_type :: u8
  minX :: u16
  maxX :: u16
  minY :: u8
  maxY :: u8
  lines :: "nat \<Rightarrow> nat \<Rightarrow> nat \<Rightarrow> Span"

definition in_table :: "int \<Rightarrow> int \<Rightarrow> int \<Rightarrow> bool" where
  "in_table sweepY sweepX scanY \<longleftrightarrow>
     0 \<le> sweepY \<and> sweepY < 193 \<and> 0 \<le> sweepX \<and> sweepX < 257 \<and> 0 \<le> scanY \<and> scanY < 192"

definition span_at :: "Data \<Rightarrow> int \<Rightarrow> int \<Rightarrow> int \<Rightarrow> fault + Span" where
  "span_at data sweepY sweepX scanY =
     (if in_table sweepY sweepX scanY
      then Inr (lines data (nat sweepY) (nat sweepX) (nat scanY))
      else Inl OutOfBounds)"

section \<open>The test loop (\<open>main.cpp\<close>)\<close>

text \<open>
  What the test loop writes to the output: the line that opens a sweep and the one that
  closes a sweep without mismatch, the banner of the first mismatch, a line for a
  captured span that does not exist, and a line for a span that differs, with the values
  it prints (sweep position, scanline, generated and captured columns, the raw
  fixed-point values and the increment).
\<close>

datatype report =
    Testing string
  | FoundMismatch
  | SpanMissing i32 i32 i32
  | SpanDiffers i32 i32 i32 i32 i32 u8 u8 i32 i32 i32
  | AllOK

record test_state =
  mismatch :: bool
  printed :: "report list"

definition foundMismatch :: "test_state \<Rightarrow> test_state" where
  "foundMismatch st =
     (if \<not> mismatch st then st\<lparr>mismatch := True, printed := printed st @ [FoundMismatch]\<rparr>
      else st)"

text \<open>
  The span of one scanline as the loop body computes it: the four queries, swapped
  when the slope is negative.
\<close>

definition scanline_span :: "Slope \<Rightarrow> i32 \<Rightarrow> fault + (i32 \<times> i32 \<times> i32 \<times> i32)" where
  "scanline_span slope y =
     bind_fault (FracXStart slope y) (\<lambda>startX.
     bind_fault (FracXEnd slope y) (\<lambda>endX.
     bind_fault (XStart slope y) (\<lambda>startScrX.
     bind_fault (XEnd slope y) (\<lambda>endScrX.
     Inr (if IsNegative slope then (endX, startX, endScrX, startScrX)
          else (startX, endX, startScrX, endScrX))))))"

text \<open>The comparison of a generated span with the captured one, and its report.\<close>

definition compare_span ::
    "Slope \<Rightarrow> i32 \<Rightarrow> i32 \<Rightarrow> i32 \<Rightarrow> (i32 \<times> i32 \<times> i32 \<times> i32) \<Rightarrow> Span \<Rightarrow> test_state
      \<Rightarrow> test_state" where
  "compare_span slope testX testY y gen sp st =
     (case gen of (startX, endX, startScrX, endScrX) \<Rightarrow>
        if \<not> span_exists sp then
          (let st' = foundMismatch st
           in st'\<lparr>printed := printed st' @ [SpanMissing testX testY y]\<rparr>)
        else if ucast (span_start sp) \<noteq> startScrX \<or> ucast (span_end sp) \<noteq> endScrX then
          (let st' = foundMismatch st
           in st'\<lparr>printed := printed st' @
                [SpanDiffers testX testY y startScrX endScrX (span_start sp) (span_end sp)
                   endX startX (DX slope)]\<rparr>)
        else st)"

text \<open>
  The loop \<open>for (i32 y = y0; y < y1; y++)\<close> of \<open>testSlope\<close>, from the current \<open>y\<close>: the
  skip of a span that starts right of the screen, the break at \<open>y == 192\<close>, then the
  access to the table and the comparison.
\<close>

function testSlope_loop ::
    "Data \<Rightarrow> i32 \<Rightarrow> i32 \<Rightarrow> Slope \<Rightarrow> i32 \<Rightarrow> i32 \<Rightarrow> test_state \<Rightarrow> fault + test_state" where
  "testSlope_loop data testX testY slope y1 y st =
     (if y <s y1 then
        (case scanline_span slope y of
           Inl e \<Rightarrow> Inl e
         | Inr gen \<Rightarrow>
             if 256 \<le>s fst (snd (snd gen)) then
               (case i32_add y 1 of
                  Inl e \<Rightarrow> Inl e
                | Inr y' \<Rightarrow> testSlope_loop data testX testY slope y1 y' st)
             else if y = 192 then Inr st
             else
               (case span_at data (sint testY) (sint testX) (sint y) of
                  Inl e \<Rightarrow> Inl e
                | Inr sp \<Rightarrow>
                    (case i32_add y 1 of
                       Inl e \<Rightarrow> Inl e
                     | Inr y' \<Rightarrow>
                         testSlope_loop data testX testY slope y1 y'
                           (compare_span slope testX testY y gen sp st))))
      else Inr st)"
  by pat_completeness auto
termination
proof (relation "measure (\<lambda>(data, testX, testY, slope, y1, y, st). nat (sint y1 - sint y))")
  show "wf (measure (\<lambda>(data, testX, testY, slope, y1, y, st). nat (sint y1 - sint y)))"
    by simp
next
  fix data :: Data and testX testY y1 y y' :: i32 and slope :: Slope and st :: test_state
  assume "y <s y1" and "i32_add y 1 = Inr y'"
  then have "sint y < sint y1" and "sint y' = sint y + 1"
    by (auto simp add: word_sless_alt i32_add_def in_i32_def sint_word_ariths
        signed_take_bit_int_eq_self split: if_splits)
  then have "nat (sint y1 - sint y') < nat (sint y1 - sint y)"
    by simp
  then show "((data, testX, testY, slope, y1, y', st), (data, testX, testY, slope, y1, y, st))
      \<in> measure (\<lambda>(data, testX, testY, slope, y1, y, st). nat (sint y1 - sint y))"
    by simp
  fix sp :: Span and gen :: "i32 \<times> i32 \<times> i32 \<times> i32"
  from \<open>nat (sint y1 - sint y') < nat (sint y1 - sint y)\<close>
  show "((data, testX, testY, slope, y1, y', compare_span slope testX testY y gen sp st),
         (data, testX, testY, slope, y1, y, st))
      \<in> measure (\<lambda>(data, testX, testY, slope, y1, y, st). nat (sint y1 - sint y))"
    by simp
qed

text \<open>\<open>testSlope\<close>: the swap to top-to-bottom, the adjustment of a horizontal edge, Setup, the loop.\<close>

definition testSlope ::
    "Data \<Rightarrow> i32 \<Rightarrow> i32 \<Rightarrow> i32 \<Rightarrow> i32 \<Rightarrow> i32 \<Rightarrow> i32 \<Rightarrow> test_state \<Rightarrow> fault + test_state" where
  "testSlope data testX testY x0 y0 x1 y1 st =
     (let (x0, y0, x1, y1) = (if y1 <s y0 then (x1, y1, x0, y0) else (x0, y0, x1, y1)) in
      bind_fault (if y0 = y1 then i32_add y1 1 else Inr y1) (\<lambda>y1.
      bind_fault (Setup x0 y0 x1 y1) (\<lambda>slope.
      testSlope_loop data testX testY slope y1 y0 st)))"

text \<open>A counted loop whose body can fail: the first fault ends it.\<close>

fun for_each :: "('a \<Rightarrow> 's \<Rightarrow> fault + 's) \<Rightarrow> 'a list \<Rightarrow> 's \<Rightarrow> fault + 's" where
  "for_each body [] st = Inr st"
| "for_each body (i # rest) st =
     (case body i st of Inl e \<Rightarrow> Inl e | Inr st' \<Rightarrow> for_each body rest st')"

text \<open>
  \<open>testSlopes\<close>: the sweep \<open>y1 = 0 .. 192\<close>, \<open>x1 = 0 .. 256\<close> from the anchor \<open>(x0, y0)\<close>.
\<close>

definition testSlopes :: "Data \<Rightarrow> i32 \<Rightarrow> i32 \<Rightarrow> string \<Rightarrow> fault + test_state" where
  "testSlopes data x0 y0 name =
     bind_fault
       (for_each (\<lambda>y1. for_each (\<lambda>x1. testSlope data x1 y1 x0 y0 x1 y1)
                           (map word_of_int [0..256]))
                 (map word_of_int [0..192])
                 \<lparr>mismatch = False, printed = [Testing name]\<rparr>)
       (\<lambda>st. Inr (if \<not> mismatch st then st\<lparr>printed := printed st @ [AllOK]\<rparr> else st))"

text \<open>\<open>test\<close>: the anchor of each capture type; any other type tests nothing.\<close>

definition test :: "Data \<Rightarrow> fault + test_state option" where
  "test data =
     (if data_type data = 0 then map_sum id Some (testSlopes data 0 0 ''top left'')
      else if data_type data = 1 then map_sum id Some (testSlopes data 256 0 ''top right'')
      else if data_type data = 2 then map_sum id Some (testSlopes data 0 192 ''bottom left'')
      else if data_type data = 3 then map_sum id Some (testSlopes data 256 192 ''bottom right'')
      else Inr None)"

section \<open>The capture parser (\<open>main.cpp\<close>)\<close>

text \<open>
  The input stream over the bytes of the file.  \<open>in.read(dst, n)\<close> extracts \<open>n\<close> bytes; at
  the end of the input it extracts the bytes that are left and sets the failure state,
  and in the failure state it extracts nothing.  The bytes of the destination that were
  not extracted keep their old contents.  \<open>readFile\<close> never tests the state.
\<close>

record istream =
  remaining :: "u8 list"
  failed :: bool

definition istream_read :: "nat \<Rightarrow> istream \<Rightarrow> u8 list \<times> istream" where
  "istream_read n inp =
     (if failed inp then ([], inp)
      else if n \<le> length (remaining inp)
      then (take n (remaining inp), inp\<lparr>remaining := drop n (remaining inp)\<rparr>)
      else (remaining inp, inp\<lparr>remaining := [], failed := True\<rparr>))"

definition overlay :: "'a list \<Rightarrow> 'a list \<Rightarrow> 'a list" where
  "overlay got old = got @ drop (length got) old"

definition read_u8 :: "u8 \<Rightarrow> istream \<Rightarrow> u8 \<times> istream" where
  "read_u8 old inp =
     (case istream_read 1 inp of (got, inp') \<Rightarrow> (hd (overlay got [old]), inp'))"

text \<open>A \<open>u16\<close> is read as its two bytes in memory, low byte first.\<close>

definition read_u16 :: "u16 \<Rightarrow> istream \<Rightarrow> u16 \<times> istream" where
  "read_u16 old inp =
     (case istream_read 2 inp of (got, inp') \<Rightarrow>
        (case overlay got [ucast old, ucast (drop_bit 8 old)] of
           lo # hi # _ \<Rightarrow> (ucast lo OR push_bit 8 (ucast hi), inp')
         | _ \<Rightarrow> (old, inp')))"

text \<open>A \<open>bool\<close> is read as one byte; any byte other than zero is true.\<close>

definition read_bool :: "bool \<Rightarrow> istream \<Rightarrow> bool \<times> istream" where
  "read_bool old inp =
     (case istream_read 1 inp of (got, inp') \<Rightarrow>
        (case got of [] \<Rightarrow> (old, inp') | b # _ \<Rightarrow> (b \<noteq> 0, inp')))"

definition read_span :: "Span \<Rightarrow> istream \<Rightarrow> Span \<times> istream" where
  "read_span old inp =
     (case read_bool (span_exists old) inp of (e, inp1) \<Rightarrow>
      case read_u8 (span_start old) inp1 of (s, inp2) \<Rightarrow>
      case read_u8 (span_end old) inp2 of (t, inp3) \<Rightarrow>
        (\<lparr>span_exists = e, span_start = s, span_end = t\<rparr>, inp3))"

text \<open>
  The state of the two record loops: the stream, the local array \<open>coords\<close> (not
  initialized, so an element no read has filled has no value), \<open>prevX\<close>, \<open>prevY\<close> and the
  table being filled.
\<close>

record parse_state =
  input :: istream
  coords :: "u8 option list"
  prevX :: int
  prevY :: int
  table :: "nat \<Rightarrow> nat \<Rightarrow> nat \<Rightarrow> Span"

text \<open>
  The loop over \<open>checkY\<close>: three reads into \<open>lines[prevY][prevX].spans[checkY]\<close>.  Forming
  the reference outside the table is the fault.
\<close>

fun read_spans ::
    "int \<Rightarrow> int \<Rightarrow> int list \<Rightarrow> istream \<times> (nat \<Rightarrow> nat \<Rightarrow> nat \<Rightarrow> Span)
      \<Rightarrow> fault + istream \<times> (nat \<Rightarrow> nat \<Rightarrow> nat \<Rightarrow> Span)" where
  "read_spans pY pX [] st = Inr st"
| "read_spans pY pX (checkY # rest) (inp, tab) =
     (if in_table pY pX checkY then
        (case read_span (tab (nat pY) (nat pX) (nat checkY)) inp of (sp, inp') \<Rightarrow>
           read_spans pY pX rest
             (inp', tab(nat pY := (tab (nat pY))(nat pX := (tab (nat pY) (nat pX))(nat checkY := sp)))))
      else Inl OutOfBounds)"

text \<open>
  One record: the body of the loop over \<open>x\<close>.  \<open>Inr None\<close> is the early
  \<open>return nullptr\<close> of a record whose coordinate bytes are not \<open>((u8)prevX, (u8)prevY)\<close>.
\<close>

definition read_record :: "u8 \<Rightarrow> int \<times> int \<Rightarrow> parse_state \<Rightarrow> fault + parse_state option" where
  "read_record ty p st =
     (case istream_read 2 (input st) of (got, inp) \<Rightarrow>
        (case overlay (map Some got) (coords st) of
           Some c0 # c1 # _ \<Rightarrow>
             if c0 \<noteq> word_of_int (prevX st) then Inr None
             else (case c1 of
                None \<Rightarrow> Inl IndeterminateValue
              | Some c1 \<Rightarrow>
                  if c1 \<noteq> word_of_int (prevY st) then Inr None
                  else
                    (let startY = (if ty AND 2 \<noteq> 0 then prevY st else 0);
                         endY = (if ty AND 2 \<noteq> 0 then 191 else prevY st);
                         startY = (if 192 \<le> startY then 191 else startY);
                         endY = (if 192 \<le> endY then 191 else endY)
                     in case read_spans (prevY st) (prevX st) [startY..endY] (inp, table st) of
                          Inl e \<Rightarrow> Inl e
                        | Inr (inp', tab) \<Rightarrow>
                            Inr (Some \<lparr>input = inp', coords = overlay (map Some got) (coords st),
                                       prevX = fst p, prevY = snd p, table = tab\<rparr>)))
         | _ \<Rightarrow> Inl IndeterminateValue))"

fun read_records :: "u8 \<Rightarrow> (int \<times> int) list \<Rightarrow> parse_state \<Rightarrow> fault + parse_state option" where
  "read_records ty [] st = Inr (Some st)"
| "read_records ty (p # ps) st =
     (case read_record ty p st of
        Inl e \<Rightarrow> Inl e
      | Inr None \<Rightarrow> Inr None
      | Inr (Some st') \<Rightarrow> read_records ty ps st')"

text \<open>The positions \<open>(x, y)\<close> in the order of the two loops: \<open>y\<close> outer, \<open>x\<close> inner.\<close>

definition record_positions :: "u16 \<Rightarrow> u16 \<Rightarrow> u8 \<Rightarrow> u8 \<Rightarrow> (int \<times> int) list" where
  "record_positions mnX mxX mnY mxY =
     concat (map (\<lambda>y. map (\<lambda>x. (x, y)) [uint mnX..uint mxX]) [uint mnY..uint mxY])"

text \<open>The five reads of the header into the zero-initialized \<open>Data\<close>.\<close>

definition read_header :: "istream \<Rightarrow> (u8 \<times> u16 \<times> u16 \<times> u8 \<times> u8) \<times> istream" where
  "read_header inp =
     (case read_u8 0 inp of (ty, inp1) \<Rightarrow>
      case read_u16 0 inp1 of (mnX, inp2) \<Rightarrow>
      case read_u16 0 inp2 of (mxX, inp3) \<Rightarrow>
      case read_u8 0 inp3 of (mnY, inp4) \<Rightarrow>
      case read_u8 0 inp4 of (mxY, inp5) \<Rightarrow>
        ((ty, mnX, mxX, mnY, mxY), inp5))"

definition initial_state :: "istream \<Rightarrow> parse_state" where
  "initial_state inp =
     \<lparr>input = inp, coords = [None, None], prevX = 0, prevY = 0,
      table = (\<lambda>_ _ _. \<lparr>span_exists = False, span_start = 0, span_end = 0\<rparr>)\<rparr>"

text \<open>What \<open>readFile\<close> prints, piece by piece.\<close>

datatype out = Text string | Num int | Newline

definition corner_name :: "u8 \<Rightarrow> string" where
  "corner_name ty =
     (if ty = 0 then ''Top left'' else if ty = 1 then ''Bottom left''
      else if ty = 2 then ''Top right'' else ''Bottom right'')"

text \<open>
  \<open>readFile\<close>.  The file is \<open>None\<close> when the path is not a regular file.  The result is
  the output and the pointer returned; \<open>None\<close> is \<open>nullptr\<close>.
\<close>

definition readFile :: "string \<Rightarrow> u8 list option \<Rightarrow> fault + out list \<times> Data option" where
  "readFile path file =
     (case file of
        None \<Rightarrow> Inr ([Text path, Text '' does not exist or is not a file.'', Newline], None)
      | Some bytes \<Rightarrow>
          (case read_header \<lparr>remaining = bytes, failed = False\<rparr> of
             ((ty, mnX, mxX, mnY, mxY), inp) \<Rightarrow>
               if ty \<notin> {0, 1, 2, 3} then
                 Inr ([Text ''Loading '', Text path, Text ''... '',
                       Text ''Invalid type ('', Num (uint ty), Text '')''], None)
               else
                 (let msg = [Text ''Loading '', Text path, Text ''... '', Text (corner_name ty),
                             Text '', '', Num (uint mnX), Text ''x'', Num (uint mnY),
                             Text '' to '', Num (uint mxX), Text ''x'', Num (uint mxY)]
                  in case read_records ty (record_positions mnX mxX mnY mxY) (initial_state inp) of
                       Inl e \<Rightarrow> Inl e
                     | Inr None \<Rightarrow> Inr (msg @ [Text '' -- Invalid file'', Newline], None)
                     | Inr (Some st) \<Rightarrow>
                         (let startY = (if ty AND 2 \<noteq> 0 then min (uint mnY) 191 else 0);
                              endY = (if ty AND 2 \<noteq> 0 then 191 else min (uint mxY) 191)
                          in case read_spans (prevY st) (prevX st) [startY..endY]
                                    (input st, table st) of
                               Inl e \<Rightarrow> Inl e
                             | Inr (inp', tab) \<Rightarrow>
                                 Inr (msg @ [Text '' -- OK'', Newline],
                                      Some \<lparr>data_type = ty, minX = mnX, maxX = mxX,
                                             minY = mnY, maxY = mxY, lines = tab\<rparr>)))))"

text \<open>\<open>main\<close> tests a capture only when \<open>readFile\<close> returned one: \<open>if (data) test(*data)\<close>.\<close>

definition test_if_loaded :: "Data option \<Rightarrow> fault + test_state option" where
  "test_if_loaded p = (case p of None \<Rightarrow> Inr None | Some data \<Rightarrow> test data)"

section \<open>Unfolding the interpolator on concrete inputs\<close>

lemmas i32_defs = bind_fault_def in_i32_def i32_add_def i32_sub_def i32_mul_def i32_shl_def
  i32_shr_def u32_div_def

lemmas k_defs = kFracBits_def kOne_def kBias_def kMask_def

lemmas query_defs = FracXStart_def FracXEnd_def XStart_def XEnd_def DX_def IsXMajor_def
  IsNegative_def

lemma kOne_val: "kOne = 262144"
  by (simp add: k_defs)

lemma kBias_val: "kBias = 131072"
  by (simp add: k_defs)

lemma kMask_val: "kMask = NOT (mask 9)"
  by (simp add: k_defs)

section \<open>Signed readings of in-range arithmetic\<close>

text \<open>
  When the mathematical result of a signed operation fits in 32 bits, the signed reading
  of the wrapped word is that result.
\<close>

lemma sint_add_exact:
  "in_i32 (sint a + sint b) \<Longrightarrow> sint (a + b :: i32) = sint a + sint b"
  by (simp add: in_i32_def sint_word_ariths signed_take_bit_int_eq_self)

lemma sint_sub_exact:
  "in_i32 (sint a - sint b) \<Longrightarrow> sint (a - b :: i32) = sint a - sint b"
  by (simp add: in_i32_def sint_word_ariths signed_take_bit_int_eq_self)

lemma sint_mul_exact:
  "in_i32 (sint a * sint b) \<Longrightarrow> sint (a * b :: i32) = sint a * sint b"
  by (simp add: in_i32_def sint_word_ariths signed_take_bit_int_eq_self)

lemma sint_shl_exact:
  "in_i32 (sint a * 2 ^ n) \<Longrightarrow> sint (push_bit n a :: i32) = sint a * 2 ^ n"
  by (simp add: in_i32_def signed_push_bit_eq signed_take_bit_int_eq_self flip: push_bit_eq_mult)

lemma uint_eq_sint: "0 \<le> sint (a :: i32) \<Longrightarrow> uint a = sint a"
proof -
  assume nonneg: "0 \<le> sint a"
  have "sint a < 2 ^ 32"
    using sint_lt [of a] by simp
  with nonneg have "take_bit 32 (sint a) = sint a"
    by (simp add: take_bit_int_eq_self)
  then show ?thesis
    by (simp add: uint_sint)
qed

lemma sint_of_int_exact: "in_i32 k \<Longrightarrow> sint (word_of_int k :: i32) = k"
  by (simp add: in_i32_def sint_sbintrunc' signed_take_bit_int_eq_self)

lemma sint_udiv_exact:
  assumes "0 \<le> sint (a :: i32)" "0 \<le> sint (b :: i32)"
  shows "sint (a div b) = sint a div sint b"
proof -
  have q0: "0 \<le> sint a div sint b"
    using assms by (simp add: div_int_pos_iff)
  have q1: "sint a div sint b \<le> sint a"
    using assms(1) int_div_le_self [of "sint a" "sint b"] by (cases "sint a = 0") simp_all
  note q = q0 q1
  have "sint a < 2 ^ 31"
    using sint_lt [of a] by simp
  with q have "in_i32 (sint a div sint b)"
    by (simp add: in_i32_def)
  then show ?thesis
    using assms by (simp add: word_div_def uint_eq_sint sint_of_int_exact)
qed

lemma and_not_mask_int: "(k :: int) AND NOT (mask n) = k - k mod 2 ^ n"
proof -
  have "k AND NOT (mask n) = push_bit n (drop_bit n k)"
    by (rule bit_eqI) (auto simp add: bit_simps)
  also have "\<dots> = k - take_bit n k"
    using bits_ident [of n k] by simp
  finally show ?thesis
    by (simp add: take_bit_eq_mod)
qed

lemma kMask_neg: "kMask = - 512"
  by (simp add: k_defs mask_eq_exp_minus_1 not_eq_complement)

lemma sint_kMask: "sint kMask = NOT (mask 9)"
  using minus_exp_eq_not_mask [of 9, where ?'a = int] by (simp add: kMask_neg) 

lemma sint_and_kMask: "sint ((r :: i32) AND kMask) = sint r - sint r mod 512"
  by (simp add: signed_and_eq sint_kMask and_not_mask_int)

lemma sint_shr: "sint (i32_shr r n) = sint r div 2 ^ n"
  by (simp add: i32_shr_def sint_signed_drop_bit_eq drop_bit_eq_div)

section \<open>Setup and the queries on small coordinates\<close>

lemma reciprocal_dx_bounds:
  assumes "0 \<le> dx" "0 \<le> dy"
  shows "0 \<le> reciprocal_dx dx dy" and "reciprocal_dx dx dy \<le> dx * 262144"
proof -
  have q0: "0 \<le> (262144 :: int) div dy"
    using assms(2) by (simp add: div_int_pos_iff)
  have q1: "(262144 :: int) div dy \<le> 262144"
    using int_div_le_self [of 262144 dy] by simp
  show "0 \<le> reciprocal_dx dx dy"
    using assms(1) q0 by (simp add: reciprocal_dx_def)
  show "reciprocal_dx dx dy \<le> dx * 262144"
    using assms(1) q1 by (simp add: reciprocal_dx_def mult_left_mono)
qed

lemma bind_fault_Inr: "bind_fault (Inr v) f = f v"
  by (simp add: bind_fault_def)

lemma bind_fault_Inl: "bind_fault (Inl e) f = Inl e"
  by (simp add: bind_fault_def)

lemma sint_kOne: "sint kOne = 262144" by (simp add: kOne_val)
lemma sint_kBias: "sint kBias = 131072" by (simp add: kBias_val)

text \<open>The increment computed by Setup from deltas that are small and not negative.\<close>

lemma Setup_increment:
  assumes dx: "0 \<le> sint (dx :: i32)" "sint dx < 8192" and dy: "0 \<le> sint (dy :: i32)"
  shows "(if dy \<noteq> 0 then bind_fault (u32_div kOne dy) (\<lambda>q. Inr (dx * q)) else Inr (dx * kOne))
           = Inr (if dy \<noteq> 0 then dx * (kOne div dy) else dx * kOne)"
    and "sint (if dy \<noteq> 0 then dx * (kOne div dy) else dx * kOne)
           = reciprocal_dx (sint dx) (sint dy)"
proof -
  show "(if dy \<noteq> 0 then bind_fault (u32_div kOne dy) (\<lambda>q. Inr (dx * q)) else Inr (dx * kOne))
           = Inr (if dy \<noteq> 0 then dx * (kOne div dy) else dx * kOne)"
    by (simp add: bind_fault_def u32_div_def)
  have nz: "dy \<noteq> 0 \<longleftrightarrow> sint dy \<noteq> 0"
    by (simp add: signed_eq_0_iff)
  have q: "sint (kOne div dy) = 262144 div sint dy"
    using dy by (simp add: sint_udiv_exact sint_kOne)
  have b: "0 \<le> reciprocal_dx (sint dx) (sint dy)"
      "reciprocal_dx (sint dx) (sint dy) \<le> sint dx * 262144"
    using reciprocal_dx_bounds [OF dx(1) dy] by simp_all
  have r: "in_i32 (reciprocal_dx (sint dx) (sint dy))"
    using b dx by (simp add: in_i32_def)
  show "sint (if dy \<noteq> 0 then dx * (kOne div dy) else dx * kOne)
           = reciprocal_dx (sint dx) (sint dy)"
  proof (cases "dy = 0")
    case True
    with r have "in_i32 (sint dx * sint kOne)"
      by (simp add: reciprocal_dx_def sint_kOne)
    with True show ?thesis
      by (simp add: sint_mul_exact reciprocal_dx_def sint_kOne)
  next
    case False
    with r nz have "in_i32 (sint dx * sint (kOne div dy))"
      by (simp add: reciprocal_dx_def q)
    with False nz show ?thesis
      by (simp add: sint_mul_exact reciprocal_dx_def q)
  qed
qed


lemma Setup_top_down:
  assumes x0: "0 \<le> sint x0" "sint x0 < 8192" and x1: "0 \<le> sint x1" "sint x1 < 8192"
      and y: "0 \<le> sint y0" "sint y0 \<le> sint y1"
  shows "\<exists>s. Setup x0 y0 x1 y1 = Inr s
     \<and> m_y0 s = y0
     \<and> m_negative s = (sint x1 < sint x0)
     \<and> m_xMajor s = (sint y1 - sint y0 < \<bar>sint x1 - sint x0\<bar>)
     \<and> sint (m_dx s) = reciprocal_dx \<bar>sint x1 - sint x0\<bar> (sint y1 - sint y0)
     \<and> sint (m_x0 s) = origin_fp (sint x0) (sint x1) (sint y1 - sint y0)"
proof -
  have noswap: "(y1 <s y0) = False"
    using y by (simp add: word_sless_alt)
  have y1_hi: "sint y1 < 2147483648"
    using sint_lt [of y1] by simp
  have shl_ok: "0 \<le> sint x0 \<and> in_i32 (sint x0 * 2 ^ kFracBits)"
    using x0 by (simp add: in_i32_def kFracBits_def)
  then have shl: "i32_shl x0 kFracBits = Inr (push_bit kFracBits x0)"
    by (simp add: i32_shl_def)
  have shl_v: "sint (push_bit kFracBits x0) = sint x0 * 262144"
    using shl_ok by (simp add: sint_shl_exact) (simp add: kFracBits_def)
  have dy_ok: "in_i32 (sint y1 - sint y0)"
    using y y1_hi by (simp add: in_i32_def)
  then have dy: "i32_sub y1 y0 = Inr (y1 - y0)"
    by (simp add: i32_sub_def)
  have dy_v: "sint (y1 - y0) = sint y1 - sint y0"
    using dy_ok by (rule sint_sub_exact)
  have dy_0: "0 \<le> sint (y1 - y0)"
    using y dy_v by simp
  show ?thesis
  proof (cases "sint x1 < sint x0")
    case True
    then have neg: "(x1 <s x0) = True"
      by (simp add: word_sless_alt)
    have dec_ok: "in_i32 (sint (push_bit kFracBits x0) - sint (1 :: i32))"
      using x0 by (simp add: shl_v in_i32_def)
    then have dec: "i32_sub (push_bit kFracBits x0) 1 = Inr (push_bit kFracBits x0 - 1)"
      by (simp add: i32_sub_def)
    have dec_v: "sint (push_bit kFracBits x0 - 1) = sint x0 * 262144 - 1"
      using sint_sub_exact [OF dec_ok] by (simp add: shl_v)
    have dx_ok: "in_i32 (sint x0 - sint x1)"
      using x0 x1 by (simp add: in_i32_def)
    then have dx: "i32_sub x0 x1 = Inr (x0 - x1)"
      by (simp add: i32_sub_def)
    have dx_v: "sint (x0 - x1) = sint x0 - sint x1"
      using dx_ok by (rule sint_sub_exact)
    have dx_b: "0 \<le> sint (x0 - x1)" "sint (x0 - x1) < 8192"
      using x0 x1 True dx_v by simp_all
    define D where
      "D = (if y1 - y0 \<noteq> 0 then (x0 - x1) * (kOne div (y1 - y0)) else (x0 - x1) * kOne)"
    have inc_v: "sint D = reciprocal_dx (sint x0 - sint x1) (sint y1 - sint y0)"
      unfolding D_def using Setup_increment(2) [OF dx_b dy_0] by (simp only: dx_v dy_v)
    have major: "(y1 - y0 <s x0 - x1) = (sint y1 - sint y0 < sint x0 - sint x1)"
      by (simp only: word_sless_alt dx_v dy_v)
    have diag: "(x0 - x1 = y1 - y0) = (sint x0 - sint x1 = sint y1 - sint y0)"
      by (simp only: word_eq_iff_signed [where ?'a = int] dx_v dy_v)
    have bias_ok: "in_i32 (sint (push_bit kFracBits x0 - 1) - sint kBias)"
      using x0 by (simp add: dec_v sint_kBias in_i32_def)
    have bias_v: "sint (push_bit kFracBits x0 - 1 - kBias) = sint x0 * 262144 - 1 - 131072"
      using sint_sub_exact [OF bias_ok] by (simp add: dec_v sint_kBias)
    have eq: "Setup x0 y0 x1 y1 =
        Inr \<lparr>m_x0 = (if (y1 - y0 <s x0 - x1) \<or> (x0 - x1 = y1 - y0)
                       then push_bit kFracBits x0 - 1 - kBias else push_bit kFracBits x0 - 1),
             m_y0 = y0, m_dx = D, m_negative = True, m_xMajor = (y1 - y0 <s x0 - x1)\<rparr>"
      unfolding Setup_def D_def Let_def
      by (simp only: noswap neg if_True if_False prod.case shl dec dx dy bind_fault_Inr
          Setup_increment(1) [OF dx_b dy_0])
    show ?thesis
      unfolding eq major diag using True
      by (auto simp add: inc_v dec_v bias_v origin_fp_def)
  next
    case False
    then have neg: "(x1 <s x0) = False"
      by (simp add: word_sless_alt)
    have dx_ok: "in_i32 (sint x1 - sint x0)"
      using x0 x1 by (simp add: in_i32_def)
    then have dx: "i32_sub x1 x0 = Inr (x1 - x0)"
      by (simp add: i32_sub_def)
    have dx_v: "sint (x1 - x0) = sint x1 - sint x0"
      using dx_ok by (rule sint_sub_exact)
    have dx_b: "0 \<le> sint (x1 - x0)" "sint (x1 - x0) < 8192"
      using x0 x1 False dx_v by simp_all
    define D where
      "D = (if y1 - y0 \<noteq> 0 then (x1 - x0) * (kOne div (y1 - y0)) else (x1 - x0) * kOne)"
    have inc_v: "sint D = reciprocal_dx (sint x1 - sint x0) (sint y1 - sint y0)"
      unfolding D_def using Setup_increment(2) [OF dx_b dy_0] by (simp only: dx_v dy_v)
    have major: "(y1 - y0 <s x1 - x0) = (sint y1 - sint y0 < sint x1 - sint x0)"
      by (simp only: word_sless_alt dx_v dy_v)
    have diag: "(x1 - x0 = y1 - y0) = (sint x1 - sint x0 = sint y1 - sint y0)"
      by (simp only: word_eq_iff_signed [where ?'a = int] dx_v dy_v)
    have bias_ok: "in_i32 (sint (push_bit kFracBits x0) + sint kBias)"
      using x0 by (simp add: shl_v sint_kBias in_i32_def)
    have bias_v: "sint (push_bit kFracBits x0 + kBias) = sint x0 * 262144 + 131072"
      using sint_add_exact [OF bias_ok] by (simp add: shl_v sint_kBias)
    have eq: "Setup x0 y0 x1 y1 =
        Inr \<lparr>m_x0 = (if (y1 - y0 <s x1 - x0) \<or> (x1 - x0 = y1 - y0)
                       then push_bit kFracBits x0 + kBias else push_bit kFracBits x0),
             m_y0 = y0, m_dx = D, m_negative = False, m_xMajor = (y1 - y0 <s x1 - x0)\<rparr>"
      unfolding Setup_def D_def Let_def
      by (simp only: noswap neg if_True if_False prod.case shl dx dy bind_fault_Inr
          Setup_increment(1) [OF dx_b dy_0])
    show ?thesis
      unfolding eq major diag using False
      by (auto simp add: inc_v shl_v bias_v origin_fp_def)
  qed
qed


lemma Setup_swap:
  assumes "y1 <s y0"
  shows "Setup x0 y0 x1 y1 = Setup x1 y1 x0 y0"
proof -
  have "\<not> y0 <s y1"
    using assms by (simp add: word_sless_alt)
  with assms show ?thesis
    by (simp add: Setup_def)
qed

lemma Setup_small:
  assumes x0: "0 \<le> sint x0" "sint x0 < 8192" and x1: "0 \<le> sint x1" "sint x1 < 8192"
      and y: "0 \<le> sint y0" "0 \<le> sint y1"
  shows "\<exists>s. Setup x0 y0 x1 y1 = Inr s
     \<and> (if sint y1 < sint y0 then slope_for s (sint x1) (sint y1) (sint x0) (sint y0)
        else slope_for s (sint x0) (sint y0) (sint x1) (sint y1))"
proof (cases "sint y1 < sint y0")
  case True
  then have sw: "y1 <s y0"
    by (simp add: word_sless_alt)
  from True have "sint y1 \<le> sint y0" by simp
  from Setup_top_down [OF x1 x0 y(2) this] True show ?thesis
    by (simp only: Setup_swap [OF sw] slope_for_def if_True) metis
next
  case False
  then have "sint y0 \<le> sint y1" by simp
  from Setup_top_down [OF x0 x1 y(1) this] False show ?thesis
    by (simp only: slope_for_def if_False) metis
qed

lemma mult_div_le_int:
  assumes "0 < (b :: int)"
  shows "b * (a div b) \<le> a"
proof -
  have "a = b * (a div b) + a mod b" by simp
  moreover have "0 \<le> a mod b" using assms by simp
  ultimately show ?thesis by linarith
qed

lemma displacement_bounds:
  assumes k: "0 \<le> k" "k \<le> dy" and dx: "0 \<le> dx"
  shows "0 \<le> k * reciprocal_dx dx dy" and "k * reciprocal_dx dx dy \<le> dx * 262144"
proof -
  have dy: "0 \<le> dy" using k by simp
  show "0 \<le> k * reciprocal_dx dx dy"
    using k(1) reciprocal_dx_bounds(1) [OF dx dy] by simp
  show "k * reciprocal_dx dx dy \<le> dx * 262144"
  proof (cases "dy = 0")
    case True
    with k have "k = 0" by simp
    with dx show ?thesis by simp
  next
    case False
    with dy have pos: "0 < dy" by simp
    have q0: "0 \<le> (262144 :: int) div dy"
      using dy by (simp add: div_int_pos_iff)
    have "k * (262144 div dy) \<le> dy * (262144 div dy)"
      using k(2) q0 by (rule mult_right_mono)
    also have "\<dots> \<le> 262144"
      using pos by (rule mult_div_le_int)
    finally have "dx * (k * (262144 div dy)) \<le> dx * 262144"
      using dx by (rule mult_left_mono)
    with False show ?thesis
      by (simp add: reciprocal_dx_def mult.left_commute)
  qed
qed

lemma FracXStart_in_range:
  assumes s: "slope_for s xt yt xb yb"
      and xt: "0 \<le> xt" "xt < 8192" and xb: "0 \<le> xb" "xb < 8192"
      and yt: "0 \<le> yt"
      and y: "yt \<le> sint y" "sint y \<le> yb"
  shows "\<exists>r. FracXStart s y = Inr r
           \<and> sint r = frac_start_int xt xb (yb - yt) (sint y - yt)"
proof -
  let ?k = "sint y - yt"
  let ?dy = "yb - yt"
  let ?R = "reciprocal_dx \<bar>xb - xt\<bar> ?dy"
  have y0: "sint (m_y0 s) = yt" and neg: "m_negative s = (xb < xt)"
    and dxv: "sint (m_dx s) = ?R" and x0v: "sint (m_x0 s) = origin_fp xt xb ?dy"
    using s by (simp_all add: slope_for_def)
  have y_hi: "sint y < 2147483648"
    using sint_lt [of y] by simp
  have d_ok: "in_i32 (sint y - sint (m_y0 s))"
    using y yt y_hi by (simp add: y0 in_i32_def)
  then have d: "i32_sub y (m_y0 s) = Inr (y - m_y0 s)"
    by (simp add: i32_sub_def)
  have d_v: "sint (y - m_y0 s) = ?k"
    using sint_sub_exact [OF d_ok] by (simp add: y0)
  have k: "0 \<le> ?k" "?k \<le> ?dy"
    using y by simp_all
  have adx: "0 \<le> \<bar>xb - xt\<bar>" by simp
  note disp = displacement_bounds [OF k adx]
  have adx_hi: "\<bar>xb - xt\<bar> < 8192"
    using xt xb by simp
  have m_ok: "in_i32 (sint (y - m_y0 s) * sint (m_dx s))"
    using disp adx_hi by (simp add: d_v dxv in_i32_def)
  then have m: "i32_mul (y - m_y0 s) (m_dx s) = Inr ((y - m_y0 s) * m_dx s)"
    by (simp add: i32_mul_def)
  have m_v: "sint ((y - m_y0 s) * m_dx s) = ?k * ?R"
    using sint_mul_exact [OF m_ok] by (simp add: d_v dxv)
  show ?thesis
  proof (cases "xb < xt")
    case True
    then have a: "\<bar>xb - xt\<bar> = xt - xb" by simp
    have r_ok: "in_i32 (sint (m_x0 s) - sint ((y - m_y0 s) * m_dx s))"
      using disp True xt xb by (simp add: m_v x0v origin_fp_def in_i32_def a)
    then have "i32_sub (m_x0 s) ((y - m_y0 s) * m_dx s) = Inr (m_x0 s - (y - m_y0 s) * m_dx s)"
      by (simp add: i32_sub_def)
    moreover have "sint (m_x0 s - (y - m_y0 s) * m_dx s) = origin_fp xt xb ?dy - ?k * ?R"
      using sint_sub_exact [OF r_ok] by (simp add: m_v x0v)
    ultimately show ?thesis
      using True neg by (simp add: FracXStart_def d m bind_fault_Inr frac_start_int_def a)
  next
    case False
    then have a: "\<bar>xb - xt\<bar> = xb - xt" by simp
    have r_ok: "in_i32 (sint (m_x0 s) + sint ((y - m_y0 s) * m_dx s))"
      using disp False xt xb by (simp add: m_v x0v origin_fp_def in_i32_def a)
    then have "i32_add (m_x0 s) ((y - m_y0 s) * m_dx s) = Inr (m_x0 s + (y - m_y0 s) * m_dx s)"
      by (simp add: i32_add_def)
    moreover have "sint (m_x0 s + (y - m_y0 s) * m_dx s) = origin_fp xt xb ?dy + ?k * ?R"
      using sint_add_exact [OF r_ok] by (simp add: m_v x0v)
    ultimately show ?thesis
      using False neg by (simp add: FracXStart_def d m bind_fault_Inr frac_start_int_def a)
  qed
qed


section \<open>Concrete slopes\<close>

text \<open>
  C9.  The endpoints \<open>(0, 2)\<close> and \<open>(1, 0)\<close> are distinct and lie in
  \<open>[0, 256] \<times> [0, 192]\<close>; the slope is normalized to run from \<open>y = 0\<close> to \<open>y = 2\<close>
  and is negative, so its origin is one unit below \<open>1.0\<close>.  On scanline \<open>2\<close>, inside the
  normalized range, the fixed-point start is \<open>-1\<close> and the arithmetic shift makes the
  screen column \<open>XStart\<close> equal to \<open>-1\<close>, an off-screen column.
\<close>

theorem XStart_below_zero:
  "on_screen 0 2 \<and> on_screen 1 0 \<and> ((0 :: i32), (2 :: i32)) \<noteq> (1, 0)
   \<and> y_top 2 0 \<le>s (2 :: i32) \<and> (2 :: i32) \<le>s y_bottom 2 0
   \<and> Setup 0 2 1 0 =
     Inr \<lparr>m_x0 = 262143, m_y0 = 0, m_dx = 131072, m_negative = True, m_xMajor = False\<rparr>
   \<and> FracXStart
       \<lparr>m_x0 = 262143, m_y0 = 0, m_dx = 131072, m_negative = True, m_xMajor = False\<rparr> 2
     = Inr (- 1)
   \<and> XStart
       \<lparr>m_x0 = 262143, m_y0 = 0, m_dx = 131072, m_negative = True, m_xMajor = False\<rparr> 2
     = Inr (- 1)
   \<and> sint (- 1 :: i32) = - 1"
  by (simp add: on_screen_def y_top_def y_bottom_def Setup_def query_defs i32_defs k_defs
      word_sless_alt word_sle_eq)

text \<open>
  C3.  The slope from \<open>(0, 0)\<close> to \<open>(69, 49)\<close> is X-major, and between scanlines \<open>37\<close>
  and \<open>38\<close> its spans leave a one-pixel gap: the span of line \<open>37\<close> ends in column \<open>52\<close>
  and the span of line \<open>38\<close> starts in column \<open>54\<close>.
\<close>

theorem gap_69x49:
  "\<exists>s ystar xe xs.
     Setup 0 0 69 49 = Inr s \<and> IsXMajor s
     \<and> 0 \<le>s ystar \<and> ystar <s 48
     \<and> XEnd s ystar = Inr xe \<and> XStart s (ystar + 1) = Inr xs
     \<and> sint xe + 1 < sint xs"
proof -
  let ?s = "\<lparr>m_x0 = 131072, m_y0 = 0, m_dx = 369081, m_negative = False, m_xMajor = True\<rparr>"
  have cfg: "Setup 0 0 69 49 = Inr ?s"
    by (simp add: Setup_def i32_defs k_defs word_sless_alt)
  have xe: "XEnd ?s 37 = Inr 52"
    by code_simp
  have xs: "XStart ?s (37 + 1) = Inr 54"
    by code_simp
  have "IsXMajor ?s \<and> (0 :: i32) \<le>s 37 \<and> (37 :: i32) <s 48
        \<and> sint (52 :: i32) + 1 < sint (54 :: i32)"
    by (simp add: IsXMajor_def word_sle_eq word_sless_alt)
  with cfg xe xs show ?thesis by blast
qed

section \<open>Setup on the documented domain\<close>

lemma on_screen_sint:
  "on_screen x y \<Longrightarrow> 0 \<le> sint x \<and> sint x \<le> 256 \<and> 0 \<le> sint y \<and> sint y \<le> 192"
  by (simp add: on_screen_def word_sle_eq)

lemma Setup_on_screen:
  assumes "on_screen x0 y0" "on_screen x1 y1"
  shows "\<exists>s. Setup x0 y0 x1 y1 = Inr s
     \<and> (if sint y1 < sint y0 then slope_for s (sint x1) (sint y1) (sint x0) (sint y0)
        else slope_for s (sint x0) (sint y0) (sint x1) (sint y1))"
proof -
  from assms on_screen_sint [of x0 y0] on_screen_sint [of x1 y1]
  have "0 \<le> sint x0" "sint x0 < 8192" "0 \<le> sint x1" "sint x1 < 8192"
       "0 \<le> sint y0" "0 \<le> sint y1"
    by simp_all
  then show ?thesis by (rule Setup_small)
qed

lemma slope_for_dx:
  assumes "if sint y1 < sint y0 then slope_for s (sint x1) (sint y1) (sint x0) (sint y0)
        else slope_for s (sint x0) (sint y0) (sint x1) (sint y1)"
  shows "sint (m_dx s) = reciprocal_dx (dx_int x0 x1) (dy_int y0 y1)"
  using assms by (auto simp add: slope_for_def dx_int_def dy_int_def abs_minus_commute split: if_splits)

text \<open>
  C7.  For endpoints in \<open>[0, 256] \<times> [0, 192]\<close> that are not the same point, Setup
  returns a slope: no checked signed operation leaves the 32-bit range and the division
  is never by zero.  The increment of the slope is not negative.
\<close>

theorem Setup_total_dx_nonneg:
  assumes "on_screen x0 y0" and "on_screen x1 y1" and "(x0, y0) \<noteq> (x1, y1)"
  shows "\<exists>s. Setup x0 y0 x1 y1 = Inr s \<and> 0 \<le>s DX s"
proof -
  from Setup_on_screen [OF assms(1,2)] obtain s where
    s: "Setup x0 y0 x1 y1 = Inr s" and
    f: "if sint y1 < sint y0 then slope_for s (sint x1) (sint y1) (sint x0) (sint y0)
        else slope_for s (sint x0) (sint y0) (sint x1) (sint y1)"
    by blast
  have "0 \<le> reciprocal_dx (dx_int x0 x1) (dy_int y0 y1)"
    by (rule reciprocal_dx_bounds) (simp_all add: dx_int_def dy_int_def)
  then have "0 \<le>s DX s"
    by (simp add: word_sle_eq DX_def slope_for_dx [OF f])
  with s show ?thesis by blast
qed

theorem Setup_total_dx_nonneg_witness:
  "on_screen 0 0 \<and> on_screen 69 49 \<and> ((0 :: i32), (0 :: i32)) \<noteq> (69, 49)
   \<and> (\<exists>s. Setup 0 0 69 49 = Inr s \<and> 0 \<le>s DX s)"
proof -
  have a: "on_screen 0 0" and b: "on_screen 69 49"
    by (simp_all add: on_screen_def word_sle_eq)
  have c: "((0 :: i32), (0 :: i32)) \<noteq> (69, 49)" by simp
  from a b c Setup_total_dx_nonneg [OF a b c] show ?thesis by blast
qed

lemma increment_word:
  assumes dx: "in_i32 (sint b - sint a)" "sint a \<le> sint b"
      and dy: "in_i32 (sint y1 - sint y0)" "sint y0 \<le> sint y1"
  shows "(if y1 - y0 \<noteq> 0 then (b - a) * (kOne div (y1 - y0)) else (b - a) * kOne)
           = (word_of_int (reciprocal_dx (sint b - sint a) (sint y1 - sint y0)) :: i32)"
proof -
  have dx_v: "sint (b - a) = sint b - sint a"
    using dx(1) by (rule sint_sub_exact)
  have dy_v: "sint (y1 - y0) = sint y1 - sint y0"
    using dy(1) by (rule sint_sub_exact)
  have "word_of_int (sint (b - a)) = b - a"
    by simp
  then have dxw: "b - a = word_of_int (sint b - sint a)"
    by (simp only: dx_v)
  have dy_0: "0 \<le> sint (y1 - y0)"
    using dy(2) dy_v by simp
  have nz: "(y1 - y0 \<noteq> 0) = (sint y1 - sint y0 \<noteq> 0)"
    using signed_eq_0_iff [of "y1 - y0", where ?'a = int] by (simp only: dy_v)
  have q: "kOne div (y1 - y0) = word_of_int (262144 div (sint y1 - sint y0))"
    using uint_eq_sint [OF dy_0] by (simp add: word_div_def kOne_val dy_v)
  have one: "kOne = word_of_int 262144"
    by (simp add: kOne_val)
  show ?thesis
    unfolding nz q
    by (subst dxw, subst dxw, subst one) (simp add: reciprocal_dx_def)
qed

lemma Setup_dx_word_top_down:
  assumes ok: "Setup x0 y0 x1 y1 = Inr s" and noswap: "\<not> y1 <s y0"
  shows "m_dx s = word_of_int (reciprocal_dx (dx_int x0 x1) (dy_int y0 y1))"
proof -
  have yy: "sint y0 \<le> sint y1"
    using noswap by (simp add: word_sless_alt)
  then have ady: "dy_int y0 y1 = sint y1 - sint y0"
    by (simp add: dy_int_def)
  show ?thesis
  proof (cases "x1 <s x0")
    case True
    then have xx: "sint x1 \<le> sint x0"
      by (simp add: word_sless_alt)
    then have adx: "dx_int x0 x1 = sint x0 - sint x1"
      by (simp add: dx_int_def)
    from ok noswap True have
      "in_i32 (sint x0 - sint x1) \<and> in_i32 (sint y1 - sint y0)
       \<and> m_dx s = (if y1 - y0 \<noteq> 0 then (x0 - x1) * (kOne div (y1 - y0)) else (x0 - x1) * kOne)"
      by (auto simp add: Setup_def Let_def bind_fault_def i32_sub_def i32_shl_def u32_div_def
          split: if_splits)
    then show ?thesis
      using increment_word [of x0 x1 y1 y0] xx yy by (simp only: adx ady)
  next
    case False
    then have xx: "sint x0 \<le> sint x1"
      by (simp add: word_sless_alt)
    then have adx: "dx_int x0 x1 = sint x1 - sint x0"
      by (simp add: dx_int_def)
    from ok noswap False have
      "in_i32 (sint x1 - sint x0) \<and> in_i32 (sint y1 - sint y0)
       \<and> m_dx s = (if y1 - y0 \<noteq> 0 then (x1 - x0) * (kOne div (y1 - y0)) else (x1 - x0) * kOne)"
      by (auto simp add: Setup_def Let_def bind_fault_def i32_sub_def i32_shl_def u32_div_def
          split: if_splits)
    then show ?thesis
      using increment_word [of x1 x0 y1 y0] xx yy by (simp only: adx ady)
  qed
qed

lemma Setup_dx_word:
  assumes ok: "Setup x0 y0 x1 y1 = Inr s"
  shows "m_dx s = word_of_int (reciprocal_dx (dx_int x0 x1) (dy_int y0 y1))"
proof (cases "y1 <s y0")
  case True
  then have "\<not> y0 <s y1"
    by (simp add: word_sless_alt)
  moreover from ok have "Setup x1 y1 x0 y0 = Inr s"
    by (simp only: Setup_swap [OF True])
  ultimately have "m_dx s = word_of_int (reciprocal_dx (dx_int x1 x0) (dy_int y1 y0))"
    by (rule Setup_dx_word_top_down [rotated])
  then show ?thesis
    by (simp add: dx_int_def dy_int_def abs_minus_commute)
next
  case False
  with ok show ?thesis by (rule Setup_dx_word_top_down)
qed

text \<open>
  C1.  Whenever Setup returns a slope, its increment is the 32-bit word of
  \<open>dx_int * (ONE / dy_int)\<close>, the integer division done before the multiplication, for
  \<open>dy_int \<noteq> 0\<close>, and of \<open>dx_int * ONE\<close> for \<open>dy_int = 0\<close>, where \<open>dx_int\<close> and \<open>dy_int\<close>
  are the normalized deltas and \<open>ONE = 262144\<close>.  On the documented domain the product
  does not wrap and the signed value of \<open>DX\<close> is this integer.  (At \<open>69 / 49\<close> the value
  differs from the exact quotient \<open>(69 * ONE) / 49\<close>, see the instance below.)
\<close>

theorem DX_division_before_multiplication:
  assumes "Setup x0 y0 x1 y1 = Inr s"
  shows "DX s = word_of_int
           (if dy_int y0 y1 \<noteq> 0 then dx_int x0 x1 * (262144 div dy_int y0 y1)
            else dx_int x0 x1 * 262144)
     \<and> (on_screen x0 y0 \<and> on_screen x1 y1 \<longrightarrow>
          sint (DX s) =
            (if dy_int y0 y1 \<noteq> 0 then dx_int x0 x1 * (262144 div dy_int y0 y1)
             else dx_int x0 x1 * 262144))
     \<and> uint kOne = 262144"
proof -
  have w: "DX s = word_of_int (reciprocal_dx (dx_int x0 x1) (dy_int y0 y1))"
    using Setup_dx_word [OF assms] by (simp add: DX_def)
  have "sint (DX s) = reciprocal_dx (dx_int x0 x1) (dy_int y0 y1)"
    if scr: "on_screen x0 y0 \<and> on_screen x1 y1"
  proof -
    from scr Setup_on_screen [of x0 y0 x1 y1] assms have
      "if sint y1 < sint y0 then slope_for s (sint x1) (sint y1) (sint x0) (sint y0)
        else slope_for s (sint x0) (sint y0) (sint x1) (sint y1)"
      by auto
    then show ?thesis
      by (simp add: DX_def slope_for_dx)
  qed
  with w show ?thesis
    by (simp add: reciprocal_dx_def kOne_val)
qed

theorem DX_division_before_multiplication_witness:
  "Setup 0 0 69 49 =
     Inr \<lparr>m_x0 = 131072, m_y0 = 0, m_dx = 369081, m_negative = False, m_xMajor = True\<rparr>
   \<and> on_screen 0 0 \<and> on_screen 69 49 \<and> dx_int 0 69 = 69 \<and> dy_int 0 49 = 49
   \<and> sint (DX \<lparr>m_x0 = 131072, m_y0 = 0, m_dx = 369081, m_negative = False,
                 m_xMajor = True\<rparr>) = 69 * (262144 div 49)
   \<and> (69 * (262144 div 49) :: int) \<noteq> (69 * 262144) div 49"
proof -
  let ?s = "\<lparr>m_x0 = 131072, m_y0 = 0, m_dx = 369081, m_negative = False, m_xMajor = True\<rparr>"
  have cfg: "Setup 0 0 69 49 = Inr ?s"
    by (simp add: Setup_def i32_defs k_defs word_sless_alt)
  have scr: "on_screen 0 0 \<and> on_screen 69 49"
    by (simp add: on_screen_def word_sle_eq)
  have d: "dx_int 0 69 = 69 \<and> dy_int 0 49 = 49"
    by (simp add: dx_int_def dy_int_def)
  from DX_division_before_multiplication [OF cfg] scr d
  have "sint (DX ?s) = 69 * (262144 div 49)"
    by simp
  with cfg scr d show ?thesis by simp
qed

lemma FracXStart_small:
  assumes x0: "0 \<le> sint x0" "sint x0 < 8192" and x1: "0 \<le> sint x1" "sint x1 < 8192"
      and y01: "0 \<le> sint y0" "0 \<le> sint y1"
      and ok: "Setup x0 y0 x1 y1 = Inr s"
      and y: "y_top y0 y1 \<le>s y" "y \<le>s y_bottom y0 y1"
  shows "\<exists>r. FracXStart s y = Inr r
     \<and> sint r = (if sint y1 < sint y0
                 then frac_start_int (sint x1) (sint x0) (sint y0 - sint y1) (sint y - sint y1)
                 else frac_start_int (sint x0) (sint x1) (sint y1 - sint y0) (sint y - sint y0))"
proof -
  from Setup_small [OF x0 x1 y01] ok have
    f: "if sint y1 < sint y0 then slope_for s (sint x1) (sint y1) (sint x0) (sint y0)
        else slope_for s (sint x0) (sint y0) (sint x1) (sint y1)"
    by auto
  show ?thesis
  proof (cases "sint y1 < sint y0")
    case True
    with f have sf: "slope_for s (sint x1) (sint y1) (sint x0) (sint y0)" by simp
    from True y have "sint y1 \<le> sint y" "sint y \<le> sint y0"
      by (simp_all add: y_top_def y_bottom_def word_sless_alt word_sle_eq)
    from FracXStart_in_range [OF sf x1 x0 y01(2) this] True show ?thesis by simp
  next
    case False
    with f have sf: "slope_for s (sint x0) (sint y0) (sint x1) (sint y1)" by simp
    from False y have "sint y0 \<le> sint y" "sint y \<le> sint y1"
      by (simp_all add: y_top_def y_bottom_def word_sless_alt word_sle_eq)
    from FracXStart_in_range [OF sf x0 x1 y01(1) this] False show ?thesis by simp
  qed
qed

lemma FracXStart_on_screen:
  assumes "on_screen x0 y0" "on_screen x1 y1" "Setup x0 y0 x1 y1 = Inr s"
      and "y_top y0 y1 \<le>s y" "y \<le>s y_bottom y0 y1"
  shows "\<exists>r. FracXStart s y = Inr r"
proof -
  from assms(1,2) on_screen_sint [of x0 y0] on_screen_sint [of x1 y1]
  have "0 \<le> sint x0" "sint x0 < 8192" "0 \<le> sint x1" "sint x1 < 8192"
       "0 \<le> sint y0" "0 \<le> sint y1"
    by simp_all
  from FracXStart_small [OF this assms(3-5)] show ?thesis by blast
qed

lemma FracXEnd_of_start:
  "FracXStart s y = Inr r \<Longrightarrow> \<exists>e. FracXEnd s y = Inr e"
  by (simp add: FracXEnd_def bind_fault_Inr)

lemma ONE_kOne: "ONE = kOne"
  by (simp add: ONE_def k_defs)

lemma MASK_kMask: "MASK = kMask"
  by (simp add: MASK_def k_defs mask_eq_exp_minus_1)

lemma MASK_clears_low_bits:
  "take_bit 9 ((w :: u32) AND MASK) = 0 \<and> drop_bit 9 (w AND MASK) = drop_bit 9 w"
proof -
  have m: "MASK = NOT (mask 9)"
    by (simp add: MASK_kMask kMask_val)
  have "take_bit 9 (w AND NOT (mask 9)) = 0"
    by (rule bit_eqI) (simp add: bit_simps)
  moreover have "drop_bit 9 (w AND NOT (mask 9)) = drop_bit 9 w"
    by (rule bit_eqI) (auto simp add: bit_simps dest: bit_imp_le_length)
  ultimately show ?thesis by (simp add: m)
qed

text \<open>
  C2.  On every slope and scanline, \<open>FracXEnd\<close> fails exactly when \<open>FracXStart\<close> does, and
  otherwise, with \<open>r\<close> the value of \<open>FracXStart\<close>, returns \<open>r\<close> when the slope is not
  X-major, \<open>(r & MASK) + dx - ONE\<close> when it is X-major and not negative, and
  \<open>r + (~MASK - (r & ~MASK)) - dx + ONE\<close> when it is X-major and negative, where
  \<open>MASK = ~((1 << 9) - 1)\<close> clears the low 9 bits of a word and keeps the others.  For a
  slope configured from endpoints of the documented domain and a scanline of the
  normalized range, \<open>FracXStart\<close> does return a value.
\<close>

theorem FracXEnd_by_cases:
  "(case FracXStart s y of
      Inl fault \<Rightarrow> FracXEnd s y = Inl fault
    | Inr r \<Rightarrow>
        FracXEnd s y =
          Inr (if \<not> IsXMajor s then r
               else if \<not> IsNegative s then (r AND MASK) + DX s - ONE
               else r + (NOT MASK - (r AND NOT MASK)) - DX s + ONE))
   \<and> (\<forall>w :: u32. take_bit 9 (w AND MASK) = 0 \<and> drop_bit 9 (w AND MASK) = drop_bit 9 w)
   \<and> (on_screen x0 y0 \<and> on_screen x1 y1 \<and> Setup x0 y0 x1 y1 = Inr s
        \<and> y_top y0 y1 \<le>s y \<and> y \<le>s y_bottom y0 y1
        \<longrightarrow> (\<exists>r. FracXStart s y = Inr r))"
proof -
  have "case FracXStart s y of
      Inl fault \<Rightarrow> FracXEnd s y = Inl fault
    | Inr r \<Rightarrow>
        FracXEnd s y =
          Inr (if \<not> IsXMajor s then r
               else if \<not> IsNegative s then (r AND MASK) + DX s - ONE
               else r + (NOT MASK - (r AND NOT MASK)) - DX s + ONE)"
    by (simp add: FracXEnd_def bind_fault_def DX_def IsXMajor_def IsNegative_def
        ONE_kOne MASK_kMask split: sum.split)
  moreover note MASK_clears_low_bits
  moreover have "\<exists>r. FracXStart s y = Inr r"
    if "on_screen x0 y0 \<and> on_screen x1 y1 \<and> Setup x0 y0 x1 y1 = Inr s
        \<and> y_top y0 y1 \<le>s y \<and> y \<le>s y_bottom y0 y1"
    using that FracXStart_on_screen [of x0 y0 x1 y1 s y] by blast
  ultimately show ?thesis by blast
qed

theorem FracXEnd_by_cases_witness:
  "on_screen 256 0 \<and> on_screen 187 49
   \<and> Setup 256 0 187 49 =
       Inr \<lparr>m_x0 = 66977791, m_y0 = 0, m_dx = 369081, m_negative = True, m_xMajor = True\<rparr>
   \<and> y_top 0 49 \<le>s 37 \<and> 37 \<le>s y_bottom 0 49
   \<and> FracXStart
        \<lparr>m_x0 = 66977791, m_y0 = 0, m_dx = 369081, m_negative = True, m_xMajor = True\<rparr> 37
       = Inr 53321794
   \<and> FracXEnd
        \<lparr>m_x0 = 66977791, m_y0 = 0, m_dx = 369081, m_negative = True, m_xMajor = True\<rparr> 37
       = Inr (53321794 + (NOT MASK - (53321794 AND NOT MASK)) - 369081 + ONE)"
proof -
  let ?s = "\<lparr>m_x0 = 66977791, m_y0 = 0, m_dx = 369081, m_negative = True, m_xMajor = True\<rparr>"
  have scr: "on_screen 256 0 \<and> on_screen 187 49"
    by (simp add: on_screen_def word_sle_eq)
  have cfg: "Setup 256 0 187 49 = Inr ?s"
    by (simp add: Setup_def i32_defs k_defs word_sless_alt)
  have rng: "y_top 0 49 \<le>s (37 :: i32) \<and> (37 :: i32) \<le>s y_bottom 0 49"
    by (simp add: y_top_def y_bottom_def word_sle_eq word_sless_alt)
  have st: "FracXStart ?s 37 = Inr 53321794"
    by (simp add: FracXStart_def i32_defs)
  from FracXEnd_by_cases [of ?s 37 256 0 187 49] st
  have "FracXEnd ?s 37 = Inr (53321794 + (NOT MASK - (53321794 AND NOT MASK)) - 369081 + ONE)"
    by (simp add: IsXMajor_def IsNegative_def DX_def)
  with scr cfg rng st show ?thesis by blast
qed

lemma sless_or_eq: "(a :: i32) \<noteq> b \<Longrightarrow> a <s b \<or> b <s a"
  by (auto simp add: word_sless_alt word_eq_iff_signed [where ?'a = int])

lemma Setup_symmetric:
  assumes "y0 \<noteq> y1"
  shows "Setup x0 y0 x1 y1 = Setup x1 y1 x0 y0"
proof -
  from assms sless_or_eq [of y0 y1] have "y0 <s y1 \<or> y1 <s y0" by simp
  then show ?thesis
  proof
    assume "y0 <s y1"
    then show ?thesis by (rule Setup_swap [symmetric])
  next
    assume "y1 <s y0"
    then show ?thesis by (rule Setup_swap)
  qed
qed

text \<open>
  C4, as stated, fails on a horizontal edge.  \<open>(0, 0)\<close> and \<open>(1, 0)\<close> are distinct points of
  the documented domain; Setup does not swap them in either order, so the order
  \<open>(0, 0), (1, 0)\<close> gives a slope that is not negative and the order \<open>(1, 0), (0, 0)\<close> a
  negative one, and \<open>FracXStart 0\<close> differs by one unit.
\<close>

theorem orientation_symmetry_counterexample:
  "on_screen 0 0 \<and> on_screen 1 0 \<and> ((0 :: i32), (0 :: i32)) \<noteq> (1, 0)
   \<and> Setup 0 0 1 0 =
       Inr \<lparr>m_x0 = 131072, m_y0 = 0, m_dx = 262144, m_negative = False, m_xMajor = True\<rparr>
   \<and> Setup 1 0 0 0 =
       Inr \<lparr>m_x0 = 131071, m_y0 = 0, m_dx = 262144, m_negative = True, m_xMajor = True\<rparr>
   \<and> IsNegative
        \<lparr>m_x0 = 131072, m_y0 = 0, m_dx = 262144, m_negative = False, m_xMajor = True\<rparr>
       \<noteq> IsNegative
        \<lparr>m_x0 = 131071, m_y0 = 0, m_dx = 262144, m_negative = True, m_xMajor = True\<rparr>
   \<and> FracXStart
        \<lparr>m_x0 = 131072, m_y0 = 0, m_dx = 262144, m_negative = False, m_xMajor = True\<rparr> 0
       \<noteq> FracXStart
        \<lparr>m_x0 = 131071, m_y0 = 0, m_dx = 262144, m_negative = True, m_xMajor = True\<rparr> 0"
  by (simp add: on_screen_def word_sle_eq Setup_def query_defs i32_defs k_defs word_sless_alt)

text \<open>
  C4, amended.  For distinct endpoints of the documented domain, Setup returns a slope
  for both orders of the endpoints, with the same \<open>DX\<close> and the same \<open>IsXMajor\<close>.  When
  moreover \<open>y0 \<noteq> y1\<close>, the two slopes have the same \<open>IsNegative\<close>, and on every scanline of
  the normalized range \<open>FracXStart\<close> and \<open>FracXEnd\<close> return the same values for both.
\<close>

theorem orientation_symmetry:
  assumes "on_screen x0 y0" and "on_screen x1 y1" and "(x0, y0) \<noteq> (x1, y1)"
  shows "\<exists>s s'. Setup x0 y0 x1 y1 = Inr s \<and> Setup x1 y1 x0 y0 = Inr s'
     \<and> DX s = DX s' \<and> IsXMajor s = IsXMajor s'
     \<and> (y0 \<noteq> y1 \<longrightarrow>
          IsNegative s = IsNegative s'
          \<and> (\<forall>y. y_top y0 y1 \<le>s y \<and> y \<le>s y_bottom y0 y1 \<longrightarrow>
                (\<exists>r e. FracXStart s y = Inr r \<and> FracXStart s' y = Inr r
                     \<and> FracXEnd s y = Inr e \<and> FracXEnd s' y = Inr e)))"
proof -
  from Setup_on_screen [OF assms(1,2)] obtain s where
    s: "Setup x0 y0 x1 y1 = Inr s" and
    f: "if sint y1 < sint y0 then slope_for s (sint x1) (sint y1) (sint x0) (sint y0)
        else slope_for s (sint x0) (sint y0) (sint x1) (sint y1)"
    by blast
  from Setup_on_screen [OF assms(2,1)] obtain s' where
    s': "Setup x1 y1 x0 y0 = Inr s'" and
    f': "if sint y0 < sint y1 then slope_for s' (sint x0) (sint y0) (sint x1) (sint y1)
        else slope_for s' (sint x1) (sint y1) (sint x0) (sint y0)"
    by blast
  have "sint (m_dx s) = sint (m_dx s')"
    using f f' by (auto simp add: slope_for_def abs_minus_commute split: if_splits)
  then have dx: "DX s = DX s'"
    by (simp add: DX_def word_eq_iff_signed [where ?'a = int])
  have xm: "IsXMajor s = IsXMajor s'"
    using f f' by (auto simp add: IsXMajor_def slope_for_def abs_minus_commute split: if_splits)
  have rest: "IsNegative s = IsNegative s'
          \<and> (\<forall>y. y_top y0 y1 \<le>s y \<and> y \<le>s y_bottom y0 y1 \<longrightarrow>
                (\<exists>r e. FracXStart s y = Inr r \<and> FracXStart s' y = Inr r
                     \<and> FracXEnd s y = Inr e \<and> FracXEnd s' y = Inr e))"
    if ne: "y0 \<noteq> y1"
  proof -
    from s s' Setup_symmetric [OF ne, of x0 x1] have same: "s' = s" by simp
    have "\<exists>r e. FracXStart s y = Inr r \<and> FracXEnd s y = Inr e"
      if "y_top y0 y1 \<le>s y \<and> y \<le>s y_bottom y0 y1" for y
    proof -
      from that FracXStart_on_screen [OF assms(1,2) s, of y]
      obtain r where "FracXStart s y = Inr r" by blast
      with FracXEnd_of_start [of s y r] show ?thesis by blast
    qed
    with same show ?thesis by blast
  qed
  from s s' dx xm rest show ?thesis by blast
qed

theorem orientation_symmetry_witness:
  "on_screen 0 0 \<and> on_screen 69 49 \<and> ((0 :: i32), (0 :: i32)) \<noteq> (69, 49)
   \<and> (\<exists>s s'. Setup 0 0 69 49 = Inr s \<and> Setup 69 49 0 0 = Inr s'
        \<and> DX s = DX s' \<and> IsXMajor s = IsXMajor s' \<and> IsNegative s = IsNegative s'
        \<and> (\<exists>r e. FracXStart s 37 = Inr r \<and> FracXStart s' 37 = Inr r
                \<and> FracXEnd s 37 = Inr e \<and> FracXEnd s' 37 = Inr e))"
proof -
  have a: "on_screen 0 0" and b: "on_screen 69 49"
    by (simp_all add: on_screen_def word_sle_eq)
  have c: "((0 :: i32), (0 :: i32)) \<noteq> (69, 49)" by simp
  have ne: "(0 :: i32) \<noteq> 49" by simp
  have rng: "y_top 0 49 \<le>s (37 :: i32) \<and> (37 :: i32) \<le>s y_bottom 0 49"
    by (simp add: y_top_def y_bottom_def word_sle_eq word_sless_alt)
  from orientation_symmetry [OF a b c] ne rng a b c show ?thesis
    by blast
qed

section \<open>Integer division facts for the spans\<close>

lemma div_shift_int:
  assumes "0 \<le> rem" "rem < c"
  shows "(k * c + rem) div c = (k :: int)"
proof -
  from assms have "c \<noteq> 0" by simp
  then have "(k * c + rem) div c = k + rem div c"
    by simp
  moreover have "rem div c = 0"
    using assms by (simp add: div_pos_pos_trivial)
  ultimately show ?thesis by simp
qed

lemma div_less_int:
  assumes c: "0 < (c :: int)" and x: "x < m * c"
  shows "x div c < m"
proof -
  from x have "x \<le> (m - 1) * c + (c - 1)"
    by (simp add: algebra_simps)
  then have "x div c \<le> ((m - 1) * c + (c - 1)) div c"
    using c by (intro zdiv_mono1)
  also have "\<dots> = m - 1"
    using c by (intro div_shift_int) simp_all
  finally show ?thesis by simp
qed

lemma reciprocal_defect:
  assumes "0 < (n :: int)"
  shows "0 \<le> 262144 - n * (262144 div n)" and "262144 - n * (262144 div n) < n"
proof -
  have e: "262144 - n * (262144 div n) = 262144 mod n"
    by (simp add: minus_mult_div_eq_mod)
  show "0 \<le> 262144 - n * (262144 div n)"
    unfolding e using assms by simp
  show "262144 - n * (262144 div n) < n"
    unfolding e using assms by simp
qed

lemma diagonal_floor:
  assumes n: "0 < n" "n \<le> 256" and k: "0 \<le> k" "k < n"
  shows "(131072 + k * reciprocal_dx n n) div 262144 = k"
proof -
  define m where "m = 262144 - n * (262144 div n)"
  have m: "0 \<le> m" "m < n"
    unfolding m_def using reciprocal_defect [OF n(1)] by simp_all
  have "k * m \<le> 256 * 256"
    using k m n by (intro mult_mono) simp_all
  moreover have "0 \<le> k * m"
    using k m by simp
  moreover have "131072 + k * reciprocal_dx n n = k * 262144 + (131072 - k * m)"
    using n(1) by (simp add: reciprocal_dx_def m_def algebra_simps)
  ultimately show ?thesis
    using div_shift_int [of "131072 - k * m" 262144 k] by simp
qed

lemma div_add_le_int:
  assumes "0 < (c :: int)"
  shows "(a + b) div c \<le> a div c + b div c + 1"
proof -
  have ma: "a mod c < c" and mb: "b mod c < c"
    using assms by simp_all
  have "a + b = (a div c) * c + a mod c + ((b div c) * c + b mod c)"
    by simp
  also have "\<dots> < (a div c) * c + c + ((b div c) * c + c)"
    using ma mb by (intro add_strict_mono add_strict_left_mono)
  also have "\<dots> = (a div c + b div c + 2) * c"
    by (simp add: algebra_simps)
  finally have "(a + b) div c < a div c + b div c + 2"
    using assms by (intro div_less_int)
  then show ?thesis by simp
qed

lemma reciprocal_dx_floor:
  assumes dx: "0 \<le> dx" and dy: "0 < dy"
  shows "reciprocal_dx dx dy div 262144 \<le> dx div dy"
proof -
  let ?R = "reciprocal_dx dx dy"
  let ?m = "?R div 262144"
  have R0: "0 \<le> ?R"
    using dx dy by (intro reciprocal_dx_bounds) simp_all
  then have m0: "0 \<le> ?m" by (simp add: div_int_pos_iff)
  have "?m * 262144 \<le> ?R"
    using mult_div_le_int [of 262144 ?R] by (simp add: mult.commute)
  then have "?m * 262144 * dy \<le> ?R * dy"
    using dy by (intro mult_right_mono) simp_all
  also have "?R * dy = dx * (dy * (262144 div dy))"
    using dy by (simp add: reciprocal_dx_def algebra_simps)
  also have "\<dots> \<le> dx * 262144"
    using dx mult_div_le_int [OF dy, of 262144] by (intro mult_left_mono) simp_all
  finally have "(?m * dy) * 262144 \<le> dx * 262144"
    by (simp add: mult.assoc mult.left_commute mult.commute)
  then have "?m * dy \<le> dx"
    by simp
  then have "(?m * dy) div dy \<le> dx div dy"
    using dy by (intro zdiv_mono1) simp_all
  then show ?thesis
    using dy by simp
qed

lemma floor_le_ceiling_div:
  assumes "0 < (dy :: int)"
  shows "dx div dy \<le> \<lceil>real_of_int dx / real_of_int dy\<rceil>"
proof -
  have "dx div dy = \<lfloor>real_of_int dx / real_of_int dy\<rfloor>"
    by (simp add: floor_divide_of_int_eq)
  also have "\<dots> \<le> \<lceil>real_of_int dx / real_of_int dy\<rceil>"
    by (rule floor_le_ceiling)
  finally show ?thesis .
qed

lemma diagonal_scanline:
  assumes n: "0 < sint n" "sint n \<le> 256"
      and sf: "slope_for s 0 0 (sint n) (sint n)"
      and y: "0 \<le> sint y" "sint y < sint n"
  shows "XStart s y = Inr y \<and> XEnd s y = Inr y"
proof -
  have nb: "0 \<le> sint n" "sint n < 8192"
    using n by simp_all
  have yn: "sint y \<le> sint n"
    using y by simp
  from FracXStart_in_range [OF sf _ _ nb _ y(1) yn]
  obtain r where r: "FracXStart s y = Inr r"
    and rv: "sint r = frac_start_int 0 (sint n) (sint n - 0) (sint y - 0)"
    by auto
  have "sint r = 131072 + sint y * reciprocal_dx (sint n) (sint n)"
    using rv n by (simp add: frac_start_int_def origin_fp_def)
  then have "sint (i32_shr r kFracBits) = sint y"
    using diagonal_floor [OF n y] by (simp add: sint_shr kFracBits_def)
  then have shr: "i32_shr r kFracBits = y"
    by (simp add: word_eq_iff_signed [where ?'a = int])
  have "\<not> m_xMajor s"
    using sf n by (simp add: slope_for_def)
  then have "FracXEnd s y = Inr r"
    by (simp add: FracXEnd_def r bind_fault_Inr)
  with r shr show ?thesis
    by (simp add: XStart_def XEnd_def bind_fault_Inr)
qed

text \<open>
  C5.  For \<open>0 < n \<le> 256\<close>, Setup on the diagonal from \<open>(0, 0)\<close> to \<open>(n, n)\<close> returns a slope
  whose spans are the single pixels of the diagonal: \<open>XStart y = y\<close> and \<open>XEnd y = y\<close> for
  every \<open>y\<close> with \<open>0 \<le> y < n\<close>.  The slope for \<open>n = 64\<close> is not X-major, not negative, and
  has \<open>DX = ONE = 262144\<close>.
\<close>

theorem diagonal_spans:
  assumes "0 <s n" and "n \<le>s 256"
  shows "(\<exists>s. Setup 0 0 n n = Inr s
           \<and> (\<forall>y. 0 \<le>s y \<and> y <s n \<longrightarrow> XStart s y = Inr y \<and> XEnd s y = Inr y))
     \<and> (\<exists>s. Setup 0 0 64 64 = Inr s \<and> \<not> IsXMajor s \<and> \<not> IsNegative s
           \<and> DX s = kOne \<and> sint (DX s) = 262144)"
proof -
  have n: "0 < sint n" "sint n \<le> 256"
    using assms by (simp_all add: word_sless_alt word_sle_eq)
  have "0 \<le> sint (0 :: i32)" "sint (0 :: i32) < 8192" "0 \<le> sint n" "sint n < 8192"
      "0 \<le> sint (0 :: i32)" "0 \<le> sint n"
    using n by simp_all
  from Setup_small [OF this] n obtain s where
    s: "Setup 0 0 n n = Inr s" and sf: "slope_for s 0 0 (sint n) (sint n)"
    by auto
  have "XStart s y = Inr y \<and> XEnd s y = Inr y" if "0 \<le>s y \<and> y <s n" for y
  proof -
    from that have "0 \<le> sint y" "sint y < sint n"
      by (simp_all add: word_sless_alt word_sle_eq)
    with n sf show ?thesis by (intro diagonal_scanline)
  qed
  with s have first: "\<exists>s. Setup 0 0 n n = Inr s
           \<and> (\<forall>y. 0 \<le>s y \<and> y <s n \<longrightarrow> XStart s y = Inr y \<and> XEnd s y = Inr y)"
    by blast
  have "Setup 0 0 64 64 =
      Inr \<lparr>m_x0 = 131072, m_y0 = 0, m_dx = 262144, m_negative = False, m_xMajor = False\<rparr>"
    by (simp add: Setup_def i32_defs k_defs word_sless_alt)
  then have "\<exists>s. Setup 0 0 64 64 = Inr s \<and> \<not> IsXMajor s \<and> \<not> IsNegative s
           \<and> DX s = kOne \<and> sint (DX s) = 262144"
    by (simp add: IsXMajor_def IsNegative_def DX_def kOne_val)
  with first show ?thesis by blast
qed

theorem diagonal_spans_witness:
  "(0 :: i32) <s 64 \<and> (64 :: i32) \<le>s 256
   \<and> (\<exists>s. Setup 0 0 64 64 = Inr s
         \<and> XStart s 0 = Inr 0 \<and> XEnd s 0 = Inr 0 \<and> XStart s 63 = Inr 63 \<and> XEnd s 63 = Inr 63
         \<and> \<not> IsXMajor s \<and> \<not> IsNegative s \<and> DX s = kOne)"
proof -
  have a: "(0 :: i32) <s 64" and b: "(64 :: i32) \<le>s 256"
    by (simp_all add: word_sless_alt word_sle_eq)
  have y0: "(0 :: i32) \<le>s 0 \<and> (0 :: i32) <s 64" and y63: "(0 :: i32) \<le>s 63 \<and> (63 :: i32) <s 64"
    by (simp_all add: word_sless_alt word_sle_eq)
  from diagonal_spans [OF a b] obtain s s' where
    s: "Setup 0 0 64 64 = Inr s"
    and sp: "\<forall>y. 0 \<le>s y \<and> y <s 64 \<longrightarrow> XStart s y = Inr y \<and> XEnd s y = Inr y"
    and s': "Setup 0 0 64 64 = Inr s'"
    and fl: "\<not> IsXMajor s' \<and> \<not> IsNegative s' \<and> DX s' = kOne"
    by blast
  from s s' have "s' = s" by simp
  with a b s sp fl y0 y63 show ?thesis by blast
qed

lemma monotone_core:
  assumes sf: "slope_for s xt yt xb yb"
      and xt: "0 \<le> xt" and xb: "xt \<le> xb" "xb < 8192"
      and yt: "0 \<le> yt" and yb: "yb < 2147483648"
      and major: "yb - yt < xb - xt"
      and y: "yt \<le> sint y" "sint y < yb"
  shows "\<exists>xs xe xs1. XStart s y = Inr xs \<and> XEnd s y = Inr xe \<and> XStart s (y + 1) = Inr xs1
           \<and> sint xe \<le> sint xs1
           \<and> sint xs1 \<le> sint xs + (xb - xt) div (yb - yt) + 1"
proof -
  let ?dy = "yb - yt"
  let ?dx = "xb - xt"
  let ?R = "reciprocal_dx ?dx ?dy"
  let ?k = "sint y - yt"
  have xt_hi: "xt < 8192" and xb_lo: "0 \<le> xb"
    using xt xb by simp_all
  have dy_pos: "0 < ?dy"
    using y by simp
  have dx0: "0 \<le> ?dx"
    using xb by simp
  have flags: "m_xMajor s" "\<not> m_negative s"
    using sf major xb by (simp_all add: slope_for_def)
  have dxv: "sint (m_dx s) = ?R"
    using sf xb by (simp add: slope_for_def)
  have y1_ok: "in_i32 (sint y + sint (1 :: i32))"
    using y yt yb by (simp add: in_i32_def)
  have y1_v: "sint (y + 1) = sint y + 1"
    using sint_add_exact [OF y1_ok] by simp
  have yle: "sint y \<le> yb"
    using y by simp
  from FracXStart_in_range [OF sf xt xt_hi xb_lo xb(2) yt y(1) yle]
  obtain r where r: "FracXStart s y = Inr r"
    and rv0: "sint r = frac_start_int xt xb ?dy ?k"
    by blast
  have y1_rng: "yt \<le> sint (y + 1)" "sint (y + 1) \<le> yb"
    using y by (simp_all add: y1_v)
  from FracXStart_in_range [OF sf xt xt_hi xb_lo xb(2) yt y1_rng]
  obtain r1 where r1: "FracXStart s (y + 1) = Inr r1"
    and r1v0: "sint r1 = frac_start_int xt xb ?dy (sint (y + 1) - yt)"
    by blast
  have rv: "sint r = xt * 262144 + 131072 + ?k * ?R"
    using rv0 xb major by (simp add: frac_start_int_def origin_fp_def)
  have "sint r1 = xt * 262144 + 131072 + (?k + 1) * ?R"
    using r1v0 xb major unfolding y1_v
    by (simp add: frac_start_int_def origin_fp_def add_diff_eq diff_add_eq)
  then have r1v: "sint r1 = sint r + ?R"
    by (simp add: rv distrib_right)
  have k: "0 \<le> ?k" "?k \<le> ?dy"
    using y by simp_all
  have r_lo: "0 \<le> sint r"
    using displacement_bounds(1) [OF k dx0] xt by (simp add: rv)
  have R0: "0 \<le> ?R"
    using dx0 dy_pos by (intro reciprocal_dx_bounds) simp_all
  have r1_hi: "sint r1 < 2147483648"
    using sint_lt [of r1] by simp
  define m where "m = sint r mod 512"
  have md: "0 \<le> m" "m < 512"
    by (simp_all add: m_def)
  have av: "sint (r AND kMask) = sint r - m"
    unfolding m_def by (rule sint_and_kMask)
  have b_ok: "in_i32 (sint (r AND kMask) + sint (m_dx s))"
    using r_lo R0 r1_hi md by (simp add: av dxv r1v in_i32_def)
  have bv: "sint ((r AND kMask) + m_dx s) = sint r - m + ?R"
    using sint_add_exact [OF b_ok] by (simp add: av dxv)
  have c_ok: "in_i32 (sint ((r AND kMask) + m_dx s) - sint kOne)"
    using r_lo R0 r1_hi md by (simp add: bv sint_kOne r1v in_i32_def)
  have ev: "sint ((r AND kMask) + m_dx s - kOne) = sint r - m + ?R - 262144"
    using sint_sub_exact [OF c_ok] by (simp add: bv sint_kOne)
  have e: "FracXEnd s y = Inr ((r AND kMask) + m_dx s - kOne)"
    using flags by (simp add: FracXEnd_def r bind_fault_Inr)
  let ?xs = "i32_shr r kFracBits"
  let ?xe = "i32_shr ((r AND kMask) + m_dx s - kOne) kFracBits"
  let ?xs1 = "i32_shr r1 kFracBits"
  have xs: "XStart s y = Inr ?xs" and xe: "XEnd s y = Inr ?xe"
    and xs1: "XStart s (y + 1) = Inr ?xs1"
    by (simp_all add: XStart_def XEnd_def r r1 e bind_fault_Inr)
  have xsv: "sint ?xs = sint r div 262144"
    and xev: "sint ?xe = (sint r - m + ?R - 262144) div 262144"
    and xs1v: "sint ?xs1 = (sint r + ?R) div 262144"
    by (simp_all add: sint_shr kFracBits_def ev r1v)
  have "sint r - m + ?R - 262144 \<le> sint r + ?R"
    using md by simp
  then have "(sint r - m + ?R - 262144) div 262144 \<le> (sint r + ?R) div 262144"
    by (intro zdiv_mono1) simp_all
  then have first: "sint ?xe \<le> sint ?xs1"
    by (simp only: xev xs1v)
  have "(sint r + ?R) div 262144 \<le> sint r div 262144 + ?R div 262144 + 1"
    by (intro div_add_le_int) simp
  also have "\<dots> \<le> sint r div 262144 + ?dx div ?dy + 1"
    using reciprocal_dx_floor [OF dx0 dy_pos] by simp
  finally have second: "sint ?xs1 \<le> sint ?xs + ?dx div ?dy + 1"
    by (simp only: xsv xs1v)
  from xs xe xs1 first second show ?thesis by blast
qed

text \<open>
  C6.  For a slope configured from endpoints of the documented domain that is X-major
  and not negative, and scanlines \<open>y\<close> and \<open>y + 1\<close> both in the normalized range:
  \<open>XStart\<close> and \<open>XEnd\<close> return, \<open>XStart (y + 1) \<ge> XEnd y - 1\<close>, and
  \<open>XStart (y + 1) \<le> XStart y + ceil (dx_int / dy_int) + 1\<close>.
\<close>

theorem monotone_progression:
  assumes "on_screen x0 y0" and "on_screen x1 y1"
      and "Setup x0 y0 x1 y1 = Inr s" and "IsXMajor s" and "\<not> IsNegative s"
      and "y_top y0 y1 \<le>s y" and "y <s y_bottom y0 y1"
  shows "\<exists>xs xe xs1. XStart s y = Inr xs \<and> XEnd s y = Inr xe \<and> XStart s (y + 1) = Inr xs1
           \<and> sint xe - 1 \<le> sint xs1
           \<and> sint xs1 \<le> sint xs
                + \<lceil>real_of_int (dx_int x0 x1) / real_of_int (dy_int y0 y1)\<rceil> + 1"
proof -
  note b0 = on_screen_sint [OF assms(1)] and b1 = on_screen_sint [OF assms(2)]
  from Setup_on_screen [OF assms(1,2)] assms(3) have
    f: "if sint y1 < sint y0 then slope_for s (sint x1) (sint y1) (sint x0) (sint y0)
        else slope_for s (sint x0) (sint y0) (sint x1) (sint y1)"
    by auto
  have core: "\<exists>xs xe xs1. XStart s y = Inr xs \<and> XEnd s y = Inr xe \<and> XStart s (y + 1) = Inr xs1
           \<and> sint xe \<le> sint xs1
           \<and> sint xs1 \<le> sint xs + dx_int x0 x1 div dy_int y0 y1 + 1 \<and> 0 < dy_int y0 y1"
  proof (cases "sint y1 < sint y0")
    case True
    with f have sf: "slope_for s (sint x1) (sint y1) (sint x0) (sint y0)" by simp
    from sf assms(4,5) have pos: "sint x1 \<le> sint x0"
      and major: "sint y0 - sint y1 < sint x0 - sint x1"
      by (auto simp add: slope_for_def IsXMajor_def IsNegative_def)
    from True assms(6,7) have yy: "sint y1 \<le> sint y" "sint y < sint y0"
      by (simp_all add: y_top_def y_bottom_def word_sless_alt word_sle_eq)
    have "0 \<le> sint x1" "sint x0 < 8192" "0 \<le> sint y1" "sint y0 < 2147483648"
      using b0 b1 by simp_all
    from monotone_core [OF sf this(1) pos this(2,3,4) major yy] True pos show ?thesis
      by (simp add: dx_int_def dy_int_def)
  next
    case False
    with f have sf: "slope_for s (sint x0) (sint y0) (sint x1) (sint y1)" by simp
    from sf assms(4,5) have pos: "sint x0 \<le> sint x1"
      and major: "sint y1 - sint y0 < sint x1 - sint x0"
      by (auto simp add: slope_for_def IsXMajor_def IsNegative_def)
    from False assms(6,7) have yy: "sint y0 \<le> sint y" "sint y < sint y1"
      by (simp_all add: y_top_def y_bottom_def word_sless_alt word_sle_eq)
    have "0 \<le> sint x0" "sint x1 < 8192" "0 \<le> sint y0" "sint y1 < 2147483648"
      using b0 b1 by simp_all
    from monotone_core [OF sf this(1) pos this(2,3,4) major yy] False pos yy show ?thesis
      by (simp add: dx_int_def dy_int_def)
  qed
  then obtain xs xe xs1 where
    q: "XStart s y = Inr xs" "XEnd s y = Inr xe" "XStart s (y + 1) = Inr xs1"
    and a: "sint xe \<le> sint xs1"
    and b: "sint xs1 \<le> sint xs + dx_int x0 x1 div dy_int y0 y1 + 1"
    and dy: "0 < dy_int y0 y1"
    by blast
  from a have a': "sint xe - 1 \<le> sint xs1" by simp
  from b floor_le_ceiling_div [OF dy, of "dx_int x0 x1"]
  have b': "sint xs1 \<le> sint xs
                + \<lceil>real_of_int (dx_int x0 x1) / real_of_int (dy_int y0 y1)\<rceil> + 1"
    by simp
  from q a' b' show ?thesis by blast
qed

theorem monotone_progression_witness:
  "on_screen 0 0 \<and> on_screen 69 49
   \<and> Setup 0 0 69 49 =
       Inr \<lparr>m_x0 = 131072, m_y0 = 0, m_dx = 369081, m_negative = False, m_xMajor = True\<rparr>
   \<and> y_top 0 49 \<le>s 37 \<and> 37 <s y_bottom 0 49
   \<and> (\<exists>xs xe xs1.
         XStart \<lparr>m_x0 = 131072, m_y0 = 0, m_dx = 369081, m_negative = False,
                 m_xMajor = True\<rparr> 37 = Inr xs
         \<and> XEnd \<lparr>m_x0 = 131072, m_y0 = 0, m_dx = 369081, m_negative = False,
                 m_xMajor = True\<rparr> 37 = Inr xe
         \<and> XStart \<lparr>m_x0 = 131072, m_y0 = 0, m_dx = 369081, m_negative = False,
                 m_xMajor = True\<rparr> (37 + 1) = Inr xs1
         \<and> sint xe - 1 \<le> sint xs1
         \<and> sint xs1 \<le> sint xs + \<lceil>real_of_int (dx_int 0 69) / real_of_int (dy_int 0 49)\<rceil> + 1)"
proof -
  let ?s = "\<lparr>m_x0 = 131072, m_y0 = 0, m_dx = 369081, m_negative = False, m_xMajor = True\<rparr>"
  have a: "on_screen 0 0" and b: "on_screen 69 49"
    by (simp_all add: on_screen_def word_sle_eq)
  have cfg: "Setup 0 0 69 49 = Inr ?s"
    by (simp add: Setup_def i32_defs k_defs word_sless_alt)
  have xm: "IsXMajor ?s" and ng: "\<not> IsNegative ?s"
    by (simp_all add: IsXMajor_def IsNegative_def)
  have lo: "y_top 0 49 \<le>s (37 :: i32)" and hi: "(37 :: i32) <s y_bottom 0 49"
    by (simp_all add: y_top_def y_bottom_def word_sle_eq word_sless_alt)
  from monotone_progression [OF a b cfg xm ng lo hi] a b cfg lo hi show ?thesis
    by blast
qed

section \<open>The test loop stays inside the table\<close>

lemma scanline_span_ok:
  assumes "FracXStart slope y = Inr r"
  shows "\<exists>gen. scanline_span slope y = Inr gen"
  using assms
  by (simp add: scanline_span_def FracXEnd_def XStart_def XEnd_def bind_fault_Inr)

lemma span_at_ok:
  assumes "on_screen testX testY" and "0 \<le> sint y" and "sint y \<le> 191"
  shows "\<exists>sp. span_at data (sint testY) (sint testX) (sint y) = Inr sp"
  using assms on_screen_sint [of testX testY]
  by (simp add: span_at_def in_table_def)

lemma next_scanline:
  assumes "sint (y :: i32) < sint (y1 :: i32)"
  shows "i32_add y 1 = Inr (y + 1)" and "sint (y + 1) = sint y + 1"
proof -
  have "sint y1 < 2147483648"
    using sint_lt [of y1] by simp
  moreover have "- 2147483648 \<le> sint y"
    using sint_ge [of y] by simp
  ultimately have ok: "in_i32 (sint y + sint (1 :: i32))"
    using assms by (simp add: in_i32_def)
  then show "i32_add y 1 = Inr (y + 1)"
    by (simp add: i32_add_def)
  from sint_add_exact [OF ok] show "sint (y + 1) = sint y + 1"
    by simp
qed

lemma testSlope_loop_ok:
  assumes "\<forall>y'. sint y \<le> sint y' \<and> sint y' < sint y1 \<longrightarrow> (\<exists>r. FracXStart slope y' = Inr r)"
      and "on_screen testX testY" and "0 \<le> sint y" and "sint y1 \<le> 193"
  shows "\<exists>st'. testSlope_loop data testX testY slope y1 y st = Inr st'"
  using assms
proof (induction data testX testY slope y1 y st rule: testSlope_loop.induct)
  case (1 data testX testY slope y1 y st)
  show ?case
  proof (cases "y <s y1")
    case False
    then show ?thesis
      by (subst testSlope_loop.simps) simp
  next
    case True
    then have lt: "sint y < sint y1"
      by (simp add: word_sless_alt)
    note nx = next_scanline [OF lt]
    from "1.prems"(1) lt obtain r where "FracXStart slope y = Inr r"
      by blast
    then obtain gen where gen: "scanline_span slope y = Inr gen"
      using scanline_span_ok by blast
    have tot': "\<forall>y'. sint (y + 1) \<le> sint y' \<and> sint y' < sint y1
        \<longrightarrow> (\<exists>r. FracXStart slope y' = Inr r)"
      using "1.prems"(1) by (simp add: nx(2))
    have y0': "0 \<le> sint (y + 1)"
      using "1.prems"(3) by (simp add: nx(2))
    show ?thesis
    proof (cases "256 \<le>s fst (snd (snd gen))")
      case skip: True
      from "1.IH"(1) [OF True gen skip nx(1) tot' "1.prems"(2) y0' "1.prems"(4)]
      obtain st' where "testSlope_loop data testX testY slope y1 (y + 1) st = Inr st'"
        by blast
      with True gen skip nx(1) show ?thesis
        by (subst testSlope_loop.simps) simp
    next
      case noskip: False
      show ?thesis
      proof (cases "y = 192")
        case brk: True
        with True gen noskip show ?thesis
          by (subst testSlope_loop.simps) simp
      next
        case nobrk: False
        then have "sint y \<noteq> 192"
          using word_eq_iff_signed [of y 192, where ?'a = int] by simp
        with lt "1.prems"(4) have "sint y \<le> 191"
          by simp
        from span_at_ok [OF "1.prems"(2,3) this]
        obtain sp where sp: "span_at data (sint testY) (sint testX) (sint y) = Inr sp"
          by blast
        from "1.IH"(2) [OF True gen noskip nobrk sp nx(1) tot' "1.prems"(2) y0' "1.prems"(4)]
        obtain st' where
          "testSlope_loop data testX testY slope y1 (y + 1)
             (compare_span slope testX testY y gen sp st) = Inr st'"
          by blast
        with True gen noskip nobrk sp nx(1) show ?thesis
          by (subst testSlope_loop.simps) simp
      qed
    qed
  qed
qed

lemma testSlope_top_down_ok:
  assumes p0: "on_screen x0 y0" and p1: "on_screen x1 y1" and ord: "sint y0 \<le> sint y1"
      and scr: "on_screen testX testY"
  shows "\<exists>st'.
     bind_fault (if y0 = y1 then i32_add y1 1 else Inr y1) (\<lambda>y1.
     bind_fault (Setup x0 y0 x1 y1) (\<lambda>slope.
     testSlope_loop data testX testY slope y1 y0 st)) = Inr st'"
proof -
  note b0 = on_screen_sint [OF p0] and b1 = on_screen_sint [OF p1]
  define y1' where "y1' = (if y0 = y1 then y1 + 1 else y1)"
  have inc_ok: "in_i32 (sint y1 + sint (1 :: i32))"
    using b1 by (simp add: in_i32_def)
  have adj: "(if y0 = y1 then i32_add y1 1 else Inr y1) = Inr y1'"
    using inc_ok by (simp add: y1'_def i32_add_def)
  have y1'_v: "sint y1' = (if y0 = y1 then sint y1 + 1 else sint y1)"
    using sint_add_exact [OF inc_ok] by (simp add: y1'_def)
  have ord': "sint y0 \<le> sint y1'" and hi: "sint y1' \<le> 193" and lo: "0 \<le> sint y1'"
    using ord b1 by (simp_all add: y1'_v)
  have small: "0 \<le> sint x0" "sint x0 < 8192" "0 \<le> sint x1" "sint x1 < 8192"
      "0 \<le> sint y0" "0 \<le> sint y1'"
    using b0 b1 lo by simp_all
  from Setup_small [OF small] obtain slope where slope: "Setup x0 y0 x1 y1' = Inr slope"
    by blast
  have top: "y_top y0 y1' = y0" and bottom: "y_bottom y0 y1' = y1'"
    using ord' by (simp_all add: y_top_def y_bottom_def word_sless_alt)
  have "\<exists>r. FracXStart slope y = Inr r" if "sint y0 \<le> sint y \<and> sint y < sint y1'" for y
  proof -
    from that have "y_top y0 y1' \<le>s y" "y \<le>s y_bottom y0 y1'"
      by (simp_all add: top bottom word_sle_eq)
    from FracXStart_small [OF small slope this] show ?thesis by blast
  qed
  then have "\<forall>y. sint y0 \<le> sint y \<and> sint y < sint y1' \<longrightarrow> (\<exists>r. FracXStart slope y = Inr r)"
    by blast
  from testSlope_loop_ok [OF this scr small(5) hi]
  obtain st' where "testSlope_loop data testX testY slope y1' y0 st = Inr st'"
    by blast
  then show ?thesis
    by (simp add: adj slope bind_fault_Inr)
qed

lemma testSlope_ok:
  assumes p0: "on_screen x0 y0" and p1: "on_screen x1 y1" and scr: "on_screen testX testY"
  shows "\<exists>st'. testSlope data testX testY x0 y0 x1 y1 st = Inr st'"
proof (cases "y1 <s y0")
  case True
  then have "sint y1 \<le> sint y0"
    by (simp add: word_sless_alt)
  from testSlope_top_down_ok [OF p1 p0 this scr] True show ?thesis
    by (simp add: testSlope_def)
next
  case False
  then have "sint y0 \<le> sint y1"
    by (simp add: word_sless_alt)
  from testSlope_top_down_ok [OF p0 p1 this scr] False show ?thesis
    by (simp add: testSlope_def)
qed

lemma for_each_ok:
  assumes "\<forall>i \<in> set xs. \<forall>st. \<exists>st'. body i st = Inr st'"
  shows "\<exists>st'. for_each body xs st = Inr st'"
  using assms
proof (induction xs arbitrary: st)
  case Nil
  show ?case by simp
next
  case (Cons i xs)
  then obtain st1 where "body i st = Inr st1"
    by (meson list.set_intros(1))
  moreover from Cons obtain st' where "for_each body xs st1 = Inr st'"
    by (meson list.set_intros(2))
  ultimately show ?case by simp
qed

lemma sweep_on_screen:
  assumes "x \<in> set [0..256]" and "y \<in> set [0..192]"
  shows "on_screen (word_of_int x) (word_of_int y)"
proof -
  from assms have b: "0 \<le> x" "x \<le> 256" "0 \<le> y" "y \<le> 192"
    by simp_all
  then have "in_i32 x" "in_i32 y"
    by (simp_all add: in_i32_def)
  then have "sint (word_of_int x :: i32) = x" "sint (word_of_int y :: i32) = y"
    by (simp_all add: sint_of_int_exact)
  with b show ?thesis
    by (simp add: on_screen_def word_sle_eq)
qed

lemma testSlopes_ok:
  assumes "on_screen x0 y0"
  shows "\<exists>st'. testSlopes data x0 y0 name = Inr st'"
proof -
  have row: "\<exists>st'. for_each (\<lambda>x1. testSlope data x1 y1 x0 y0 x1 y1)
                       (map word_of_int [0..256]) st = Inr st'"
    if "y1 \<in> set (map word_of_int [0..192])" for y1 :: i32 and st
  proof (rule for_each_ok, intro ballI allI)
    fix x1 :: i32 and st1
    assume "x1 \<in> set (map word_of_int [0..256])"
    with that obtain x y where "x1 = word_of_int x" "y1 = word_of_int y"
        "x \<in> set [0..256]" "y \<in> set [0..192]"
      by auto
    with sweep_on_screen have "on_screen x1 y1" by simp
    from testSlope_ok [OF assms this this]
    show "\<exists>st'. testSlope data x1 y1 x0 y0 x1 y1 st1 = Inr st'" .
  qed
  have "\<exists>st'. for_each (\<lambda>y1. for_each (\<lambda>x1. testSlope data x1 y1 x0 y0 x1 y1)
                           (map word_of_int [0..256]))
                 (map word_of_int [0..192])
                 \<lparr>mismatch = False, printed = [Testing name]\<rparr> = Inr st'"
    by (rule for_each_ok) (use row in blast)
  then show ?thesis
    by (auto simp add: testSlopes_def bind_fault_Inr)
qed

lemma corner_on_screen:
  "on_screen 0 0" "on_screen 256 0" "on_screen 0 192" "on_screen 256 192"
  by (simp_all add: on_screen_def word_sle_eq)

lemma span_at_in_bounds:
  "(\<exists>sp. span_at data sweepY sweepX scanY = Inr sp) \<longleftrightarrow>
     0 \<le> sweepY \<and> sweepY \<le> 192 \<and> 0 \<le> sweepX \<and> sweepX \<le> 256 \<and> 0 \<le> scanY \<and> scanY \<le> 191"
  by (auto simp add: span_at_def in_table_def)

text \<open>
  C10.  An access to the captured-span table with an index outside
  \<open>193 \<times> 257 \<times> 192\<close> is the fault \<open>OutOfBounds\<close> of \<open>span_at\<close>, and a fault ends the
  run of \<open>testSlope\<close> and of \<open>testSlopes\<close>.  For each of the four anchors and every sweep
  position with \<open>sweepX \<in> [0, 256]\<close> and \<open>sweepY \<in> [0, 192]\<close>, \<open>testSlope\<close> returns without
  a fault, and so does the batch driver \<open>testSlopes\<close> over the whole sweep: every access
  has a sweep row of at most 192, a sweep column of at most 256 and a scanline of at
  most 191.
\<close>

theorem test_loop_in_bounds:
  assumes "(x0, y0) \<in> {(0, 0), (256, 0), (0, 192), (256, 192)}"
      and "on_screen sweepX sweepY"
  shows "(\<exists>st'. testSlope data sweepX sweepY x0 y0 sweepX sweepY st = Inr st')
     \<and> (\<exists>st'. testSlopes data x0 y0 name = Inr st')
     \<and> (\<forall>i j k. (\<exists>sp. span_at data i j k = Inr sp) \<longleftrightarrow>
           0 \<le> i \<and> i \<le> 192 \<and> 0 \<le> j \<and> j \<le> 256 \<and> 0 \<le> k \<and> k \<le> 191)"
proof -
  from assms(1) corner_on_screen have anchor: "on_screen x0 y0"
    by auto
  from testSlope_ok [OF anchor assms(2) assms(2)]
  have "\<exists>st'. testSlope data sweepX sweepY x0 y0 sweepX sweepY st = Inr st'" .
  moreover from testSlopes_ok [OF anchor]
  have "\<exists>st'. testSlopes data x0 y0 name = Inr st'" .
  ultimately show ?thesis
    using span_at_in_bounds [of data] by blast
qed

theorem test_loop_in_bounds_witness:
  "((256 :: i32), (192 :: i32)) \<in> {(0, 0), (256, 0), (0, 192), (256, 192)}
   \<and> on_screen 256 192
   \<and> (\<forall>data st. (\<exists>st'. testSlope data 256 192 256 192 256 192 st = Inr st')
         \<and> (\<exists>st'. testSlopes data 256 192 ''bottom right'' = Inr st'))"
proof -
  have a: "((256 :: i32), (192 :: i32)) \<in> {(0, 0), (256, 0), (0, 192), (256, 192)}"
    by simp
  have b: "on_screen 256 192"
    by (simp add: on_screen_def word_sle_eq)
  from a b test_loop_in_bounds [OF a b] show ?thesis
    by blast
qed

lemma final_scanline_skip:
  "testSlope data 256 192 256 192 256 192 st = Inr st"
  by (simp add: testSlope_def Setup_def scanline_span_def query_defs i32_defs k_defs
      word_sless_alt word_sle_eq)

lemma final_scanline_break:
  "testSlope data 0 192 0 192 0 192 st = Inr st"
  by (simp add: testSlope_def Setup_def scanline_span_def query_defs i32_defs k_defs
      word_sless_alt word_sle_eq)

section \<open>The parser abandons an invalid capture\<close>

lemma read_header_type:
  "fst (fst (read_header \<lparr>remaining = ty # rest, failed = False\<rparr>)) = ty"
  by (simp add: read_header_def read_u8_def istream_read_def overlay_def split: prod.split)

lemma readFile_invalid_type:
  assumes "ty \<notin> {0, 1, 2, 3}"
  shows "readFile path (Some (ty # rest)) =
     Inr ([Text ''Loading '', Text path, Text ''... '',
           Text ''Invalid type ('', Num (uint ty), Text '')''], None)"
proof -
  obtain t mnX mxX mnY mxY inp where
    h: "read_header \<lparr>remaining = ty # rest, failed = False\<rparr> = ((t, mnX, mxX, mnY, mxY), inp)"
    by (metis prod.exhaust)
  with read_header_type [of ty rest] have "t = ty" by simp
  with h assms show ?thesis
    by (simp add: readFile_def)
qed

lemma read_records_append:
  "read_records ty (ps @ qs) st =
     (case read_records ty ps st of
        Inl e \<Rightarrow> Inl e
      | Inr None \<Rightarrow> Inr None
      | Inr (Some st') \<Rightarrow> read_records ty qs st')"
  by (induction ps arbitrary: st) (simp_all split: sum.split option.split)

lemma read_record_mismatch:
  assumes "istream_read 2 (input st) = ([coordX, coordY], inp')"
      and "coordX \<noteq> word_of_int (prevX st) \<or> coordY \<noteq> word_of_int (prevY st)"
  shows "read_record ty p st = Inr None"
  using assms by (auto simp add: read_record_def overlay_def)

lemma read_record_matched:
  assumes "read_record ty p st = Inr (Some st')"
  shows "take 2 (coords st') = [Some (word_of_int (prevX st)), Some (word_of_int (prevY st))]"
  using assms
  by (auto simp add: read_record_def Let_def
      split: prod.splits list.splits option.splits if_splits sum.splits)

lemma readFile_mismatch:
  assumes hdr: "read_header \<lparr>remaining = bytes, failed = False\<rparr> = ((ty, mnX, mxX, mnY, mxY), inp)"
      and ty: "ty \<in> {0, 1, 2, 3}"
      and pos: "record_positions mnX mxX mnY mxY = ps @ p # qs"
      and before: "read_records ty ps (initial_state inp) = Inr (Some st)"
      and rd: "istream_read 2 (input st) = ([coordX, coordY], inp')"
      and ne: "coordX \<noteq> word_of_int (prevX st) \<or> coordY \<noteq> word_of_int (prevY st)"
  shows "\<exists>msg. readFile path (Some bytes) = Inr (msg @ [Text '' -- Invalid file'', Newline], None)"
proof -
  have "read_record ty p st = Inr None"
    using rd ne by (rule read_record_mismatch)
  then have "read_records ty (ps @ p # qs) (initial_state inp) = Inr None"
    by (simp add: read_records_append before)
  then have "read_records ty (record_positions mnX mxX mnY mxY) (initial_state inp) = Inr None"
    by (simp only: pos)
  with hdr ty show ?thesis
    by (simp add: readFile_def Let_def)
qed

lemma readFile_loaded:
  assumes "readFile path (Some bytes) = Inr (msg, Some data)"
  shows "data_type data \<in> {0, 1, 2, 3}
     \<and> read_records (data_type data)
          (record_positions (minX data) (maxX data) (minY data) (maxY data))
          (initial_state (snd (read_header \<lparr>remaining = bytes, failed = False\<rparr>)))
        \<noteq> Inr None
     \<and> (\<forall>e. read_records (data_type data)
          (record_positions (minX data) (maxX data) (minY data) (maxY data))
          (initial_state (snd (read_header \<lparr>remaining = bytes, failed = False\<rparr>)))
        \<noteq> Inl e)"
proof -
  obtain ty mnX mxX mnY mxY inp where
    h: "read_header \<lparr>remaining = bytes, failed = False\<rparr> = ((ty, mnX, mxX, mnY, mxY), inp)"
    by (metis prod.exhaust)
  from assms h show ?thesis
    by (auto simp add: readFile_def Let_def
        split: if_splits sum.splits option.splits prod.splits)
qed

lemma read_records_all_matched:
  assumes "read_records ty (ps @ p # qs) st0 = Inr (Some stf)"
  shows "\<exists>st st'. read_records ty ps st0 = Inr (Some st)
           \<and> read_record ty p st = Inr (Some st')
           \<and> take 2 (coords st')
               = [Some (word_of_int (prevX st)), Some (word_of_int (prevY st))]"
proof -
  from assms obtain st where st: "read_records ty ps st0 = Inr (Some st)"
    and rest: "read_records ty (p # qs) st = Inr (Some stf)"
    by (auto simp add: read_records_append split: sum.splits option.splits)
  from rest obtain st' where st': "read_record ty p st = Inr (Some st')"
    by (auto split: sum.splits option.splits)
  from st st' read_record_matched [OF st'] show ?thesis by blast
qed

text \<open>
  C8.  \<open>readFile\<close> returns \<open>nullptr\<close>, after printing the invalid type, when the type byte
  of the file is not \<open>0\<close>, \<open>1\<close>, \<open>2\<close> or \<open>3\<close>.  It returns \<open>nullptr\<close>, after printing
  \<open>-- Invalid file\<close>, when the two coordinate bytes of a record differ from
  \<open>((u8)prevX, (u8)prevY)\<close>, whichever record of the sequence it is, the records before it
  having been read.  \<open>main\<close> runs no test on \<open>nullptr\<close>.  When \<open>readFile\<close> does return a
  capture, its type is one of the four and at every record the array \<open>coords\<close> held
  \<open>((u8)prevX, (u8)prevY)\<close>.
\<close>

theorem readFile_abandons_invalid:
  "(t \<notin> {0, 1, 2, 3} \<longrightarrow>
      readFile path (Some (t # rest)) =
        Inr ([Text ''Loading '', Text path, Text ''... '',
              Text ''Invalid type ('', Num (uint t), Text '')''], None))
   \<and> (read_header \<lparr>remaining = bytes, failed = False\<rparr> = ((ty, mnX, mxX, mnY, mxY), inp)
        \<and> ty \<in> {0, 1, 2, 3}
        \<and> record_positions mnX mxX mnY mxY = ps @ p # qs
        \<and> read_records ty ps (initial_state inp) = Inr (Some st)
        \<and> istream_read 2 (input st) = ([coordX, coordY], inp')
        \<and> (coordX \<noteq> word_of_int (prevX st) \<or> coordY \<noteq> word_of_int (prevY st))
      \<longrightarrow> (\<exists>msg. readFile path (Some bytes)
                   = Inr (msg @ [Text '' -- Invalid file'', Newline], None)))
   \<and> test_if_loaded None = Inr None
   \<and> (readFile path (Some bytes) = Inr (msg, Some data) \<longrightarrow>
        data_type data \<in> {0, 1, 2, 3}
        \<and> (\<forall>ps p qs.
              record_positions (minX data) (maxX data) (minY data) (maxY data) = ps @ p # qs
              \<longrightarrow> (\<exists>st st'.
                    read_records (data_type data) ps
                      (initial_state (snd (read_header \<lparr>remaining = bytes, failed = False\<rparr>)))
                      = Inr (Some st)
                    \<and> read_record (data_type data) p st = Inr (Some st')
                    \<and> take 2 (coords st')
                        = [Some (word_of_int (prevX st)), Some (word_of_int (prevY st))])))"
proof (intro conjI impI allI)
  assume "t \<notin> {0, 1, 2, 3}"
  then show "readFile path (Some (t # rest)) =
        Inr ([Text ''Loading '', Text path, Text ''... '',
              Text ''Invalid type ('', Num (uint t), Text '')''], None)"
    by (rule readFile_invalid_type)
next
  assume "read_header \<lparr>remaining = bytes, failed = False\<rparr> = ((ty, mnX, mxX, mnY, mxY), inp)
        \<and> ty \<in> {0, 1, 2, 3}
        \<and> record_positions mnX mxX mnY mxY = ps @ p # qs
        \<and> read_records ty ps (initial_state inp) = Inr (Some st)
        \<and> istream_read 2 (input st) = ([coordX, coordY], inp')
        \<and> (coordX \<noteq> word_of_int (prevX st) \<or> coordY \<noteq> word_of_int (prevY st))"
  then show "\<exists>msg. readFile path (Some bytes)
                   = Inr (msg @ [Text '' -- Invalid file'', Newline], None)"
    using readFile_mismatch [of bytes ty mnX mxX mnY mxY inp ps p qs st coordX coordY inp' path]
    by blast
next
  show "test_if_loaded None = Inr None"
    by (simp add: test_if_loaded_def)
next
  assume "readFile path (Some bytes) = Inr (msg, Some data)"
  then show "data_type data \<in> {0, 1, 2, 3}"
    using readFile_loaded by blast
next
  fix ps' p' qs'
  assume ok: "readFile path (Some bytes) = Inr (msg, Some data)"
    and pos: "record_positions (minX data) (maxX data) (minY data) (maxY data) = ps' @ p' # qs'"
  let ?init = "initial_state (snd (read_header \<lparr>remaining = bytes, failed = False\<rparr>))"
  from readFile_loaded [OF ok] obtain stf where
    "read_records (data_type data)
       (record_positions (minX data) (maxX data) (minY data) (maxY data)) ?init = Inr (Some stf)"
    by (metis sum.exhaust option.exhaust)
  then have "read_records (data_type data) (ps' @ p' # qs') ?init = Inr (Some stf)"
    by (simp only: pos)
  then show "\<exists>st st'. read_records (data_type data) ps' ?init = Inr (Some st)
      \<and> read_record (data_type data) p' st = Inr (Some st')
      \<and> take 2 (coords st') = [Some (word_of_int (prevX st)), Some (word_of_int (prevY st))]"
    by (rule read_records_all_matched)
qed

lemma header_example:
  "read_header \<lparr>remaining = [0, 0, 0, 1, 0, 0, 0, 0, 0, 1, 5, 6, 9, 9], failed = False\<rparr>
     = ((0, 0, 1, 0, 0), \<lparr>remaining = [0, 0, 1, 5, 6, 9, 9], failed = False\<rparr>)"
  by (simp add: read_header_def read_u8_def read_u16_def istream_read_def overlay_def)

lemma positions_example: "record_positions 0 1 0 0 = [(0, 0)] @ (1, 0) # []"
  by (simp add: record_positions_def upto.simps)

lemma first_record_example:
  "\<exists>st. read_records 0 [(0, 0)]
          (initial_state \<lparr>remaining = [0, 0, 1, 5, 6, 9, 9], failed = False\<rparr>) = Inr (Some st)
        \<and> input st = \<lparr>remaining = [9, 9], failed = False\<rparr> \<and> prevX st = 0 \<and> prevY st = 0"
  by (simp add: read_record_def initial_state_def istream_read_def overlay_def Let_def
      upto.simps in_table_def read_span_def read_bool_def read_u8_def)

theorem readFile_abandons_invalid_witness:
  "(7 :: u8) \<notin> {0, 1, 2, 3}
   \<and> readFile ''TL.bin'' (Some [7, 0, 0, 1, 0, 0, 0]) =
        Inr ([Text ''Loading '', Text ''TL.bin'', Text ''... '',
              Text ''Invalid type ('', Num 7, Text '')''], None)
   \<and> (\<exists>msg. readFile ''TL.bin'' (Some [0, 0, 0, 1, 0, 0, 0, 0, 0, 1, 5, 6, 9, 9])
               = Inr (msg @ [Text '' -- Invalid file'', Newline], None))
   \<and> (\<exists>msg data. readFile ''TL.bin'' (Some [0, 1, 0, 1, 0, 0, 0, 0, 0, 1, 5, 6, 1, 7, 8])
               = Inr (msg, Some data) \<and> data_type data \<in> {0, 1, 2, 3})"
proof -
  have t: "(7 :: u8) \<notin> {0, 1, 2, 3}" by simp
  from first_record_example obtain st where
    st: "read_records 0 [(0, 0)]
          (initial_state \<lparr>remaining = [0, 0, 1, 5, 6, 9, 9], failed = False\<rparr>) = Inr (Some st)"
    and inp: "input st = \<lparr>remaining = [9, 9], failed = False\<rparr>"
    and prev: "prevX st = 0" "prevY st = 0"
    by blast
  have rd: "istream_read 2 (input st) = ([9, 9], \<lparr>remaining = [], failed = False\<rparr>)"
    by (simp add: inp istream_read_def)
  have ne: "(9 :: u8) \<noteq> word_of_int (prevX st) \<or> (9 :: u8) \<noteq> word_of_int (prevY st)"
    by (simp add: prev)
  have okty: "(0 :: u8) \<in> {0, 1, 2, 3}" by simp
  obtain msg data where
    loaded: "readFile ''TL.bin'' (Some [0, 1, 0, 1, 0, 0, 0, 0, 0, 1, 5, 6, 1, 7, 8])
       = Inr (msg, Some data)"
    by (simp add: readFile_def read_header_def read_u8_def read_u16_def istream_read_def
        overlay_def record_positions_def upto.simps read_record_def initial_state_def Let_def
        in_table_def read_span_def read_bool_def)
  from t readFile_abandons_invalid
    [where t = 7 and path = "''TL.bin''" and rest = "[0, 0, 1, 0, 0, 0]"]
  have a: "readFile ''TL.bin'' (Some [7, 0, 0, 1, 0, 0, 0]) =
        Inr ([Text ''Loading '', Text ''TL.bin'', Text ''... '',
              Text ''Invalid type ('', Num 7, Text '')''], None)"
    by simp
  from header_example positions_example st rd ne okty readFile_abandons_invalid
    [where ty = 0 and path = "''TL.bin''"
       and bytes = "[0, 0, 0, 1, 0, 0, 0, 0, 0, 1, 5, 6, 9, 9]"
       and mnX = 0 and mxX = 1 and mnY = 0 and mxY = 0
       and inp = "\<lparr>remaining = [0, 0, 1, 5, 6, 9, 9], failed = False\<rparr>"
       and ps = "[(0, 0)]" and p = "(1, 0)" and qs = "[]" and st = st
       and coordX = 9 and coordY = 9 and inp' = "\<lparr>remaining = [], failed = False\<rparr>"]
  have b: "\<exists>msg. readFile ''TL.bin'' (Some [0, 0, 0, 1, 0, 0, 0, 0, 0, 1, 5, 6, 9, 9])
               = Inr (msg @ [Text '' -- Invalid file'', Newline], None)"
    by blast
  from loaded readFile_abandons_invalid
    [where path = "''TL.bin''" and bytes = "[0, 1, 0, 1, 0, 0, 0, 0, 0, 1, 5, 6, 1, 7, 8]"
       and msg = msg and data = data]
  have c: "data_type data \<in> {0, 1, 2, 3}"
    by blast
  from t a b c loaded show ?thesis
    by blast
qed

end
